theory Spec2Isabelle
  imports Main "HOL-Library.Word"
begin

section \<open>The SSE2 32bpp sprite encoder: data\<close>

text \<open>
  The development embeds \<^verbatim>\<open>Blitter_32bppSSE_Base::Encode\<close> of
  \<^verbatim>\<open>src/blitter/32bpp_sse2.cpp\<close>. The types and constants the function uses are
  declared in headers outside the translated file; each is introduced below with a note
  on where it comes from.
\<close>

type_synonym uint8_t = "8 word"
type_synonym uint16_t = "16 word"
type_synonym uint = "32 word"

text \<open>
  Modelled from the spec: \<^verbatim>\<open>SpriteLoader::CommonPixel\<close>, one decoded pixel, is declared
  outside the translated file. Encode reads its fields \<^verbatim>\<open>r, g, b, a, m\<close>; the spec
  gives the record as \<open>{r:u8, g:u8, b:u8, a:u8, mapIndex:u8}\<close>. The fields carry the
  prefix \<open>px_\<close> here, single letters being variables in the statements below.
\<close>

record CommonPixel =
  px_r :: uint8_t
  px_g :: uint8_t
  px_b :: uint8_t
  px_a :: uint8_t
  px_m :: uint8_t

text \<open>
  Modelled from the spec: \<^verbatim>\<open>Colour\<close> is declared outside the translated file. Encode
  uses it as a 4-byte cell with the channel bytes \<^verbatim>\<open>r, g, b, a\<close> and the member
  \<^verbatim>\<open>data\<close> that overlays all four; the spec gives the colour cell 4 bytes, zero
  meaning fully transparent. A colour cell is kept as its four channels; the assignment
  \<^verbatim>\<open>dst_rgba->data = 0\<close> clears all four.
\<close>

record Colour =
  col_r :: uint8_t
  col_g :: uint8_t
  col_b :: uint8_t
  col_a :: uint8_t

text \<open>
  Modelled from the spec: \<^verbatim>\<open>MapValue\<close> is declared outside the translated file. The
  spec gives the map-value cell as the 2 bytes \<open>{mapIndex, brightness}\<close>, the fields
  \<^verbatim>\<open>m\<close> and \<^verbatim>\<open>v\<close> of the code; \<^verbatim>\<open>*(uint16_t*) dst_mv = 0\<close> clears both.
\<close>

record MapValue =
  mv_m :: uint8_t
  mv_v :: uint8_t

definition Colour_zero :: Colour where
  "Colour_zero = \<lparr>col_r = 0, col_g = 0, col_b = 0, col_a = 0\<rparr>"

definition MapValue_zero :: MapValue where
  "MapValue_zero = \<lparr>mv_m = 0, mv_v = 0\<rparr>"

text \<open>
  The collaborators of Encode that live outside the translated file are parameters of the
  model: the constants \<^verbatim>\<open>PALETTE_ANIM_START\<close> and \<^verbatim>\<open>DEFAULT_BRIGHTNESS\<close>, the
  palette lookup \<^verbatim>\<open>Blitter_32bppBase::LookupColourInPalette\<close>, the brightness
  adjustment \<^verbatim>\<open>AdjustBrightneSSE\<close>, and the two ends \<^verbatim>\<open>ZoomLevel::Min\<close> and
  \<^verbatim>\<open>ZoomLevel::Max\<close> of the zoom level enumeration. Zoom levels are natural numbers.
\<close>

record env =
  PALETTE_ANIM_START :: nat
  DEFAULT_BRIGHTNESS :: uint8_t
  LookupColourInPalette :: "uint8_t \<Rightarrow> Colour"
  AdjustBrightneSSE :: "Colour \<Rightarrow> uint8_t \<Rightarrow> Colour"
  ZoomLevel_Min :: nat
  ZoomLevel_Max :: nat

text \<open>
  Modelled from the spec: \<^verbatim>\<open>_settings_client.gui\<close>, the configuration that gives the
  minimum and maximum zoom level for sprites other than glyphs.
\<close>

record GUISettings =
  zoom_min :: nat
  zoom_max :: nat

text \<open>
  Modelled from the spec: \<^verbatim>\<open>SpriteType\<close> is declared outside the translated file;
  Encode only asks whether the sprite is a font glyph.
\<close>

datatype SpriteType = Font | NotFont

text \<open>
  Modelled from the spec: \<^verbatim>\<open>SpriteLoader::Sprite\<close>, one decoded zoom level, is declared
  outside the translated file: width, height, the two origin offsets and the row-major
  sequence of pixels. The dimensions have the type \<^verbatim>\<open>uint\<close> of the loop counters
  Encode copies them into; Encode reads the pixel buffer front to back.
\<close>

record Sprite =
  height :: uint
  width :: uint
  x_offs :: int
  y_offs :: int
  data :: "CommonPixel list"

text \<open>
  Modelled from the spec: \<^verbatim>\<open>SpriteLoader::SpriteCollection\<close> is declared outside the
  translated file: a collection indexable by zoom level (\<^verbatim>\<open>sprite[z]\<close>), with a root
  record (\<^verbatim>\<open>sprite.Root()\<close>) that gives the height, width and offsets of the outer
  sprite handle.
\<close>

record SpriteCollection =
  at_zoom :: "nat \<Rightarrow> Sprite"
  Root :: Sprite

text \<open>The three accumulators \<^verbatim>\<open>has_remap\<close>, \<^verbatim>\<open>has_anim\<close>, \<^verbatim>\<open>has_translucency\<close>.\<close>

record acc =
  has_remap :: bool
  has_anim :: bool
  has_translucency :: bool

definition acc_init :: acc where
  "acc_init = \<lparr>has_remap = False, has_anim = False, has_translucency = False\<rparr>"

text \<open>
  Modelled from the spec: \<^verbatim>\<open>SpriteFlag\<close> is declared outside the translated file; Encode
  sets the three flags \<^verbatim>\<open>Translucent\<close>, \<^verbatim>\<open>NoRemap\<close> and \<^verbatim>\<open>NoAnim\<close>.
\<close>

datatype SpriteFlag = Translucent | NoRemap | NoAnim

section \<open>Zoom range and flags\<close>

text \<open>Lines 29 to 35.\<close>

definition zoom_range :: "env \<Rightarrow> GUISettings \<Rightarrow> SpriteType \<Rightarrow> nat \<times> nat" where
  "zoom_range e gui sprite_type =
    (if sprite_type \<noteq> Font then
       (zoom_min gui, if zoom_max gui = zoom_min gui then ZoomLevel_Max e else zoom_max gui)
     else (ZoomLevel_Min e, ZoomLevel_Min e))"

text \<open>The levels visited by \<^verbatim>\<open>for (ZoomLevel z = zoom_min; z <= zoom_max; z++)\<close>.\<close>

definition zoom_levels :: "nat \<times> nat \<Rightarrow> nat list" where
  "zoom_levels zr = [fst zr ..< Suc (snd zr)]"

text \<open>Lines 134 to 137.\<close>

definition store_flags :: "acc \<Rightarrow> SpriteFlag set" where
  "store_flags f =
    (if has_translucency f then {Translucent} else {}) \<union>
    (if \<not> has_remap f then {NoRemap} else {}) \<union>
    (if \<not> has_anim f then {NoAnim} else {})"

section \<open>The layout planner\<close>

text \<open>
  Modelled from the spec: the sizes \<^verbatim>\<open>sizeof(Colour)\<close>, \<^verbatim>\<open>sizeof(uint32_t)\<close>,
  \<^verbatim>\<open>sizeof(MapValue)\<close> and the constant \<^verbatim>\<open>META_LENGTH\<close> come from headers outside the
  translated file. The spec gives a colour cell 4 bytes, a map-value cell 2 bytes, and
  two run-count slots of 4 bytes in front of each line.
\<close>

definition sizeof_Colour :: nat where "sizeof_Colour = 4"
definition sizeof_uint32_t :: nat where "sizeof_uint32_t = 4"
definition sizeof_MapValue :: nat where "sizeof_MapValue = 2"
definition META_LENGTH :: nat where "META_LENGTH = 2"

text \<open>
  Modelled from the spec: \<^verbatim>\<open>SpriteInfo\<close>, the per-level entry of \<^verbatim>\<open>sd.infos\<close>, is
  declared outside the translated file (in \<^verbatim>\<open>32bpp_sse2.hpp\<close>); the spec lists source
  width, payload offset, map-value offset and row stride. The two offsets are
  \<^verbatim>\<open>uint32_t\<close>; the line size and the width are \<^verbatim>\<open>uint16_t\<close>, so the assignments
  of lines 43 and 45 keep the low 16 bits, and lines 47 and 119 read the converted line
  size back from the field.
\<close>

record SpriteInfo =
  sprite_width :: uint16_t
  sprite_offset :: uint
  sprite_line_size :: uint16_t
  mv_offset :: uint

definition SpriteInfo_zero :: SpriteInfo where
  "SpriteInfo_zero = \<lparr>sprite_width = 0, sprite_offset = 0, sprite_line_size = 0, mv_offset = 0\<rparr>"

text \<open>
  The first loop over the zoom levels (lines 40 to 52). The line size is stored into its
  16-bit field, and \<^verbatim>\<open>rgba_size\<close> is computed from the field. \<^verbatim>\<open>all_sprites_size\<close>,
  \<^verbatim>\<open>rgba_size\<close> and \<^verbatim>\<open>mv_size\<close> are \<^verbatim>\<open>uint\<close>: the products are taken modulo
  \<open>2 ^ 32\<close>, as the conversion to \<^verbatim>\<open>uint\<close> does.
\<close>

fun plan_levels :: "(nat \<Rightarrow> Sprite) \<Rightarrow> nat list \<Rightarrow> (nat \<Rightarrow> SpriteInfo) \<Rightarrow> uint
    \<Rightarrow> (nat \<Rightarrow> SpriteInfo) \<times> uint" where
  "plan_levels sp [] infos all_sprites_size = (infos, all_sprites_size)"
| "plan_levels sp (z # zs) infos all_sprites_size =
    (let src_sprite = sp z;
         line_size = (of_nat (sizeof_Colour * unat (width src_sprite) + sizeof_uint32_t * META_LENGTH)
                        :: uint16_t);
         rgba_size = (ucast line_size :: uint) * height src_sprite;
         info = \<lparr>sprite_width = ucast (width src_sprite),
                 sprite_offset = all_sprites_size,
                 sprite_line_size = line_size,
                 mv_offset = all_sprites_size + rgba_size\<rparr>;
         mv_size = (of_nat sizeof_MapValue :: uint) * width src_sprite * height src_sprite
     in plan_levels sp zs (infos(z := info)) (all_sprites_size + (rgba_size + mv_size)))"

section \<open>The pixel packer\<close>

text \<open>
  The body of the innermost loop (lines 75 to 102): what is stored through
  \<^verbatim>\<open>dst_rgba\<close> and \<^verbatim>\<open>dst_mv\<close> for one source pixel, and the accumulators after it.
\<close>

definition encode_pixel :: "env \<Rightarrow> acc \<Rightarrow> CommonPixel \<Rightarrow> Colour \<times> MapValue \<times> acc" where
  "encode_pixel e f src =
    (if px_a src \<noteq> 0 then
       let f1 = (if px_a src \<noteq> 0 \<and> px_a src \<noteq> 255 then f\<lparr>has_translucency := True\<rparr> else f)
       in if px_m src \<noteq> 0 then
            let f2 = f1\<lparr>has_remap := True\<rparr>;
                f3 = (if PALETTE_ANIM_START e \<le> unat (px_m src) then f2\<lparr>has_anim := True\<rparr> else f2);
                rgb_max = max (px_r src) (max (px_g src) (px_b src));
                v = (if rgb_max = 0 then DEFAULT_BRIGHTNESS e else rgb_max);
                colour = AdjustBrightneSSE e (LookupColourInPalette e (px_m src)) v
            in (\<lparr>col_r = col_r colour, col_g = col_g colour, col_b = col_b colour, col_a = px_a src\<rparr>,
                \<lparr>mv_m = px_m src, mv_v = v\<rparr>, f3)
          else
            (\<lparr>col_r = px_r src, col_g = px_g src, col_b = px_b src, col_a = px_a src\<rparr>,
             \<lparr>mv_m = px_m src, mv_v = DEFAULT_BRIGHTNESS e\<rparr>, f1)
     else (Colour_zero, MapValue_zero, f))"

text \<open>The loop over the pixels of one line (lines 74 to 106).\<close>

fun encode_pixels :: "env \<Rightarrow> acc \<Rightarrow> CommonPixel list \<Rightarrow> Colour list \<times> MapValue list \<times> acc" where
  "encode_pixels e f [] = ([], [], f)"
| "encode_pixels e f (p # ps) =
    (case encode_pixel e f p of (c, mv, f') \<Rightarrow>
       (case encode_pixels e f' ps of (cs, mvs, f'') \<Rightarrow> (c # cs, mv # mvs, f'')))"

text \<open>
  The two counting loops (lines 110 to 115 and 122 to 128) read the alpha bytes of colour
  cells back from the buffer. \<open>cell_at\<close> is the colour cell they find at the address
  \<open>p\<close> while the line at \<open>dst_rgba_line\<close> is packed and its map values are stored from
  \<open>dst_mv\<close> on. The two count slots take the first 8 bytes of the line, so cell \<open>i\<close> of
  the line is stored at \<open>dst_rgba_line + 8 + 4 * i\<close>; the map-value stores that follow
  it in the pixel loop go to \<open>dst_mv + 2 * i\<close> and behind. The loops find cell \<open>i\<close>
  when \<open>p\<close> is its address and none of these map-value stores went over it. At any
  other address they read bytes that are not a cell of this line (a count slot, another
  line, map values, the header, memory not yet written): the result is \<open>None\<close>, and the
  count is given only by the model with the stores made explicit, below.
\<close>

definition cell_at :: "Colour list \<Rightarrow> nat \<Rightarrow> nat \<Rightarrow> int \<Rightarrow> Colour option" where
  "cell_at cs dst_rgba_line dst_mv p =
    (let off = p - (int dst_rgba_line + 8); i = nat (off div 4) in
     if 0 \<le> off \<and> off mod 4 = 0 \<and> i < length cs \<and>
        (int dst_mv + 2 * int (length cs) \<le> p \<or> p + 4 \<le> int dst_mv + 2 * int i)
     then Some (cs ! i) else None)"

text \<open>
  The loop from the left (lines 110 to 115): at most \<open>x\<close> cells from \<open>p\<close> upwards, one
  more for each cell with alpha 0, until the first other cell. The loop from the right
  (lines 123 to 128) is the same with the pointer stepping down. The counter is a
  \<^verbatim>\<open>uint32_t\<close>. \<open>rd\<close> reads the cell at an address.
\<close>

fun count_left :: "(int \<Rightarrow> Colour option) \<Rightarrow> nat \<Rightarrow> int \<Rightarrow> uint \<Rightarrow> uint option" where
  "count_left rd 0 p nb = Some nb"
| "count_left rd (Suc x) p nb =
    (case rd p of
       None \<Rightarrow> None
     | Some c \<Rightarrow> if col_a c = 0 then count_left rd x (p + 4) (nb + 1) else Some nb)"

fun count_right :: "(int \<Rightarrow> Colour option) \<Rightarrow> nat \<Rightarrow> int \<Rightarrow> uint \<Rightarrow> uint option" where
  "count_right rd 0 p nb = Some nb"
| "count_right rd (Suc x) p nb =
    (case rd p of
       None \<Rightarrow> None
     | Some c \<Rightarrow> if col_a c = 0 then count_right rd x (p - 4) (nb + 1) else Some nb)"

text \<open>
  One packed line of a level of width \<open>w\<close> whose stored line size is \<open>line_size\<close>: the
  two count slots in front of the colour cells. The count from the left starts at the
  first cell (line 109); the count from the right starts one cell before the line
  pointer advanced by the stored line size (lines 119 and 122).
\<close>

record PackedLine =
  nb_left :: "uint option"
  nb_right :: "uint option"
  cells :: "Colour list"

definition encode_line :: "env \<Rightarrow> nat \<Rightarrow> nat \<Rightarrow> nat \<Rightarrow> nat \<Rightarrow> acc \<Rightarrow> CommonPixel list
    \<Rightarrow> PackedLine \<times> MapValue list \<times> acc" where
  "encode_line e w line_size dst_rgba_line dst_mv f src =
    (case encode_pixels e f src of (cs, mvs, f') \<Rightarrow>
       (\<lparr>nb_left = count_left (cell_at cs dst_rgba_line dst_mv) w (int dst_rgba_line + 8) 0,
         nb_right = count_right (cell_at cs dst_rgba_line dst_mv) w
                      (int dst_rgba_line + int line_size - 4) 0,
         cells = cs\<rparr>, mvs, f'))"

text \<open>
  The loop over the lines of one zoom level (lines 72 to 130): \<open>y\<close> lines remain, each
  takes the next \<open>w\<close> pixels of the source buffer; the line pointer moves by the stored
  line size, the map-value pointer by one cell for each pixel.
\<close>

fun encode_lines :: "env \<Rightarrow> nat \<Rightarrow> nat \<Rightarrow> nat \<Rightarrow> acc \<Rightarrow> CommonPixel list \<Rightarrow> nat \<Rightarrow> nat
    \<Rightarrow> PackedLine list \<times> MapValue list \<times> acc" where
  "encode_lines e w line_size 0 f src dst_rgba_line dst_mv = ([], [], f)"
| "encode_lines e w line_size (Suc y) f src dst_rgba_line dst_mv =
    (case encode_line e w line_size dst_rgba_line dst_mv f (take w src) of (l, mvs, f') \<Rightarrow>
       (case encode_lines e w line_size y f' (drop w src)
               (dst_rgba_line + line_size) (dst_mv + sizeof_MapValue * w) of
          (ls, mvs', f'') \<Rightarrow> (l # ls, mvs @ mvs', f'')))"

record PackedLevel =
  lines :: "PackedLine list"
  mvs :: "MapValue list"

text \<open>
  A level is packed with the entry the planner stored for it (line 69): from its two
  offsets (lines 70 and 71), with its line size (line 119).
\<close>

definition encode_level :: "env \<Rightarrow> acc \<Rightarrow> Sprite \<Rightarrow> SpriteInfo \<Rightarrow> PackedLevel \<times> acc" where
  "encode_level e f s info =
    (case encode_lines e (unat (width s)) (unat (sprite_line_size info)) (unat (height s)) f (data s)
            (unat (sprite_offset info)) (unat (mv_offset info)) of
       (ls, ms, f') \<Rightarrow> (\<lparr>lines = ls, mvs = ms\<rparr>, f'))"

text \<open>The loop over the zoom levels (lines 66 to 131).\<close>

fun encode_levels :: "env \<Rightarrow> (nat \<Rightarrow> Sprite) \<Rightarrow> (nat \<Rightarrow> SpriteInfo) \<Rightarrow> nat list \<Rightarrow> acc
    \<Rightarrow> (nat \<rightharpoonup> PackedLevel) \<Rightarrow> (nat \<rightharpoonup> PackedLevel) \<times> acc" where
  "encode_levels e sp tbl [] f out = (out, f)"
| "encode_levels e sp tbl (z # zs) f out =
    (case encode_level e f (sp z) (tbl z) of (lvl, f') \<Rightarrow>
       encode_levels e sp tbl zs f' (out(z \<mapsto> lvl)))"

section \<open>Encode\<close>

text \<open>
  Modelled from the spec: the output \<^verbatim>\<open>Sprite\<close> and its \<^verbatim>\<open>SpriteData\<close> are declared
  outside the translated file. The header of the packed sprite has the four fields of the
  \<^verbatim>\<open>Sprite\<close> handle that Encode assigns, the \<^verbatim>\<open>SpriteData\<close> header (flags and
  per-level infos, an entry for every zoom level) and the payload size passed to the
  allocator. The packed sprite is the header with the packed levels.
\<close>

record SpriteHeader =
  dst_height :: uint
  dst_width :: uint
  dst_x_offs :: int
  dst_y_offs :: int
  flags :: "SpriteFlag set"
  infos :: "nat \<Rightarrow> SpriteInfo"
  payload_size :: uint

record PackedSprite = SpriteHeader +
  payload :: "nat \<rightharpoonup> PackedLevel"

definition Encode :: "env \<Rightarrow> GUISettings \<Rightarrow> SpriteType \<Rightarrow> SpriteCollection \<Rightarrow> PackedSprite" where
  "Encode e gui sprite_type sprite =
    (let zs = zoom_levels (zoom_range e gui sprite_type);
         sd = plan_levels (at_zoom sprite) zs (\<lambda>z. SpriteInfo_zero) 0;
         packed = encode_levels e (at_zoom sprite) (fst sd) zs acc_init Map.empty
     in \<lparr>dst_height = height (Root sprite),
         dst_width = width (Root sprite),
         dst_x_offs = x_offs (Root sprite),
         dst_y_offs = y_offs (Root sprite),
         flags = store_flags (snd packed),
         infos = fst sd,
         payload_size = snd sd,
         payload = fst packed\<rparr>)"

section \<open>Encode on the allocated buffer\<close>

text \<open>
  The same code with its stores made explicit. The memory is the payload area of the
  buffer the allocator returns, \<^verbatim>\<open>dst_sprite->data\<close> from \<^verbatim>\<open>sizeof(SpriteData)\<close> on,
  addressed by byte offset; its initial contents are whatever the allocator left there.
  The allocation ends at the payload size the planner computed; the model stores at any
  address, and the bytes from the payload size on are shown to stay as they were when the
  run is within its buffers.
\<close>

type_synonym memory = "nat \<Rightarrow> uint8_t"

fun store_bytes :: "nat \<Rightarrow> uint8_t list \<Rightarrow> memory \<Rightarrow> memory" where
  "store_bytes p [] mem = mem"
| "store_bytes p (b # bs) mem = store_bytes (Suc p) bs (mem(p := b))"

text \<open>
  Modelled from the spec: the byte images of a colour cell (channel order
  \<open>r, g, b, a\<close>, the alpha in the last byte) and of a map-value cell (index, then
  brightness); \<^verbatim>\<open>Colour\<close> and \<^verbatim>\<open>MapValue\<close> are declared outside the translated file.
  A \<^verbatim>\<open>uint32_t\<close> is stored low byte first: the file is compiled for SSE targets only.
\<close>

definition bytes_Colour :: "Colour \<Rightarrow> uint8_t list" where
  "bytes_Colour c = [col_r c, col_g c, col_b c, col_a c]"

definition bytes_MapValue :: "MapValue \<Rightarrow> uint8_t list" where
  "bytes_MapValue v = [mv_m v, mv_v v]"

definition bytes_uint32 :: "uint \<Rightarrow> uint8_t list" where
  "bytes_uint32 n = [ucast n, ucast (drop_bit 8 n), ucast (drop_bit 16 n), ucast (drop_bit 24 n)]"

text \<open>The offset of the alpha byte in a colour cell.\<close>

definition alpha_offset :: nat where "alpha_offset = 3"

text \<open>
  The pixel loop (lines 74 to 106). Each branch of the loop body assigns every byte of
  the colour cell and of the map-value cell, so the body stores the two cells
  \<open>encode_pixel\<close> computes and advances both pointers.
\<close>

fun write_pixels :: "env \<Rightarrow> acc \<Rightarrow> CommonPixel list \<Rightarrow> nat \<Rightarrow> nat \<Rightarrow> memory \<Rightarrow> acc \<times> nat \<times> memory" where
  "write_pixels e f [] dst_rgba dst_mv mem = (f, dst_mv, mem)"
| "write_pixels e f (src # rest) dst_rgba dst_mv mem =
    (case encode_pixel e f src of (c, v, f') \<Rightarrow>
       write_pixels e f' rest (dst_rgba + sizeof_Colour) (dst_mv + sizeof_MapValue)
         (store_bytes dst_mv (bytes_MapValue v) (store_bytes dst_rgba (bytes_Colour c) mem)))"

text \<open>
  The two counting loops read the alpha bytes back from the buffer: from the first cell
  of the line upwards (lines 111 to 115), and from one cell before the next line's
  pointer downwards (lines 122 to 128). The second loop can step in front of the payload
  area, into the header copied there by line 60; the byte layout of the header is
  declared outside the translated file, so a read in front of address 0 ends the run
  with \<open>None\<close>.
\<close>

fun scan_left :: "memory \<Rightarrow> nat \<Rightarrow> nat \<Rightarrow> uint \<Rightarrow> uint" where
  "scan_left mem 0 dst_rgba nb = nb"
| "scan_left mem (Suc x) dst_rgba nb =
    (if mem (dst_rgba + alpha_offset) = 0 then scan_left mem x (dst_rgba + sizeof_Colour) (nb + 1)
     else nb)"

fun scan_right :: "memory \<Rightarrow> nat \<Rightarrow> int \<Rightarrow> uint \<Rightarrow> uint option" where
  "scan_right mem 0 dst_rgba nb = Some nb"
| "scan_right mem (Suc x) dst_rgba nb =
    (if dst_rgba + int alpha_offset < 0 then None
     else if mem (nat (dst_rgba + int alpha_offset)) = 0
       then scan_right mem x (dst_rgba - int sizeof_Colour) (nb + 1)
     else Some nb)"

text \<open>
  One line (lines 73 to 129): the pixels, the left count into the first slot, the right
  count into the second slot. \<^verbatim>\<open>dst_rgba_line + META_LENGTH\<close> and
  \<^verbatim>\<open>dst_rgba_line - 1\<close> are pointer arithmetic on \<^verbatim>\<open>Colour\<close> cells; the line size is
  added in bytes.
\<close>

definition write_line :: "env \<Rightarrow> nat \<Rightarrow> nat \<Rightarrow> acc \<Rightarrow> CommonPixel list \<Rightarrow> nat \<Rightarrow> nat \<Rightarrow> memory
    \<Rightarrow> (acc \<times> nat \<times> memory) option" where
  "write_line e w line_size f src dst_rgba_line dst_mv mem =
    (case write_pixels e f (take w src) (dst_rgba_line + META_LENGTH * sizeof_Colour) dst_mv mem of
       (f', dst_mv', mem1) \<Rightarrow>
         let nb_pix_transp = scan_left mem1 w (dst_rgba_line + META_LENGTH * sizeof_Colour) 0;
             mem2 = store_bytes dst_rgba_line (bytes_uint32 nb_pix_transp) mem1;
             nb_right = dst_rgba_line + sizeof_Colour;
             next_line = dst_rgba_line + line_size
         in (case scan_right mem2 w (int next_line - int sizeof_Colour) 0 of
               None \<Rightarrow> None
             | Some nb_pix_transp' \<Rightarrow>
                 Some (f', dst_mv', store_bytes nb_right (bytes_uint32 nb_pix_transp') mem2)))"

text \<open>
  The lines of a level (lines 72 to 130): the line pointer moves by the line size,
  \<^verbatim>\<open>dst_mv\<close> and \<^verbatim>\<open>src\<close> run on.
\<close>

fun write_lines :: "env \<Rightarrow> nat \<Rightarrow> nat \<Rightarrow> nat \<Rightarrow> acc \<Rightarrow> CommonPixel list \<Rightarrow> nat \<Rightarrow> nat \<Rightarrow> memory
    \<Rightarrow> (acc \<times> memory) option" where
  "write_lines e w line_size 0 f src dst_rgba_line dst_mv mem = Some (f, mem)"
| "write_lines e w line_size (Suc y) f src dst_rgba_line dst_mv mem =
    (case write_line e w line_size f src dst_rgba_line dst_mv mem of
       None \<Rightarrow> None
     | Some (f', dst_mv', mem') \<Rightarrow>
         write_lines e w line_size y f' (drop w src) (dst_rgba_line + line_size) dst_mv' mem')"

text \<open>
  A level starts at the two offsets the planner recorded for it (lines 70 and 71) and
  steps by the line size it recorded (line 119).
\<close>

definition write_level :: "env \<Rightarrow> acc \<Rightarrow> Sprite \<Rightarrow> SpriteInfo \<Rightarrow> memory \<Rightarrow> (acc \<times> memory) option" where
  "write_level e f s info mem =
     write_lines e (unat (width s)) (unat (sprite_line_size info)) (unat (height s)) f (data s)
       (unat (sprite_offset info)) (unat (mv_offset info)) mem"

fun write_levels :: "env \<Rightarrow> (nat \<Rightarrow> Sprite) \<Rightarrow> (nat \<Rightarrow> SpriteInfo) \<Rightarrow> nat list \<Rightarrow> acc \<Rightarrow> memory
    \<Rightarrow> (acc \<times> memory) option" where
  "write_levels e sp tbl [] f mem = Some (f, mem)"
| "write_levels e sp tbl (z # zs) f mem =
    (case write_level e f (sp z) (tbl z) mem of
       None \<Rightarrow> None
     | Some (f', mem') \<Rightarrow> write_levels e sp tbl zs f' mem')"

text \<open>
  Encode with the payload written into the memory \<open>mem\<close>: the header, and the memory
  after the last store.
\<close>

definition Encode_buffer :: "env \<Rightarrow> GUISettings \<Rightarrow> SpriteType \<Rightarrow> SpriteCollection \<Rightarrow> memory
    \<Rightarrow> (SpriteHeader \<times> memory) option" where
  "Encode_buffer e gui sprite_type sprite mem =
    (let zs = zoom_levels (zoom_range e gui sprite_type);
         sd = plan_levels (at_zoom sprite) zs (\<lambda>z. SpriteInfo_zero) 0
     in (case write_levels e (at_zoom sprite) (fst sd) zs acc_init mem of
           None \<Rightarrow> None
         | Some (f, mem') \<Rightarrow>
             Some (\<lparr>dst_height = height (Root sprite),
                    dst_width = width (Root sprite),
                    dst_x_offs = x_offs (Root sprite),
                    dst_y_offs = y_offs (Root sprite),
                    flags = store_flags f,
                    infos = fst sd,
                    payload_size = snd sd\<rparr>,
                   mem')))"

section \<open>Derived notions used in the statements\<close>

text \<open>The pixels of a decoded level that Encode reads: the first width times height.\<close>

definition level_pixels :: "Sprite \<Rightarrow> CommonPixel list" where
  "level_pixels s = take (unat (width s) * unat (height s)) (data s)"

text \<open>The colour cell and the map-value cell the packer stores for a source pixel.\<close>

definition pixel_colour :: "env \<Rightarrow> CommonPixel \<Rightarrow> Colour" where
  "pixel_colour e p = fst (encode_pixel e acc_init p)"

definition pixel_mv :: "env \<Rightarrow> CommonPixel \<Rightarrow> MapValue" where
  "pixel_mv e p = fst (snd (encode_pixel e acc_init p))"

text \<open>The levels Encode packs for a sprite type under a configuration.\<close>

definition encoded_levels :: "env \<Rightarrow> GUISettings \<Rightarrow> SpriteType \<Rightarrow> nat list" where
  "encoded_levels e gui sprite_type = zoom_levels (zoom_range e gui sprite_type)"

text \<open>What one source pixel contributes to the three accumulators.\<close>

definition px_translucent :: "CommonPixel \<Rightarrow> bool" where
  "px_translucent p \<longleftrightarrow> px_a p \<noteq> 0 \<and> px_a p \<noteq> 255"

definition px_remap :: "CommonPixel \<Rightarrow> bool" where
  "px_remap p \<longleftrightarrow> px_a p \<noteq> 0 \<and> px_m p \<noteq> 0"

definition px_anim :: "env \<Rightarrow> CommonPixel \<Rightarrow> bool" where
  "px_anim e p \<longleftrightarrow> px_a p \<noteq> 0 \<and> px_m p \<noteq> 0 \<and> PALETTE_ANIM_START e \<le> unat (px_m p)"

definition acc_join :: "env \<Rightarrow> acc \<Rightarrow> CommonPixel list \<Rightarrow> acc" where
  "acc_join e f ps =
     \<lparr>has_remap = has_remap f \<or> (\<exists>p \<in> set ps. px_remap p),
      has_anim = has_anim f \<or> (\<exists>p \<in> set ps. px_anim e p),
      has_translucency = has_translucency f \<or> (\<exists>p \<in> set ps. px_translucent p)\<rparr>"

text \<open>The packed line and the packed level of a source, the accumulators left aside.\<close>

definition pack_line :: "env \<Rightarrow> nat \<Rightarrow> nat \<Rightarrow> nat \<Rightarrow> nat \<Rightarrow> CommonPixel list \<Rightarrow> PackedLine" where
  "pack_line e w line_size dst_rgba_line dst_mv src =
     fst (encode_line e w line_size dst_rgba_line dst_mv acc_init src)"

definition pack_level :: "env \<Rightarrow> SpriteInfo \<Rightarrow> Sprite \<Rightarrow> PackedLevel" where
  "pack_level e info s = fst (encode_level e acc_init s info)"

text \<open>Line \<open>j\<close> of a source buffer of lines of \<open>w\<close> pixels, as the line loop consumes it.\<close>

definition src_line :: "nat \<Rightarrow> 'a list \<Rightarrow> nat \<Rightarrow> 'a list" where
  "src_line w src j = take w (drop (j * w) src)"

text \<open>
  The packed lines of \<open>y\<close> lines of a source buffer, the first line at \<open>dst_rgba_line\<close>
  with its map values at \<open>dst_mv\<close>.
\<close>

definition pack_lines :: "env \<Rightarrow> nat \<Rightarrow> nat \<Rightarrow> nat \<Rightarrow> CommonPixel list \<Rightarrow> nat \<Rightarrow> nat
    \<Rightarrow> PackedLine list" where
  "pack_lines e w line_size y src dst_rgba_line dst_mv =
     map (\<lambda>j. pack_line e w line_size (dst_rgba_line + j * line_size) (dst_mv + j * (2 * w))
                 (src_line w src j)) [0..<y]"

text \<open>The number of cells with alpha 0 at the front of a list of cells.\<close>

definition transp_run :: "Colour list \<Rightarrow> nat" where
  "transp_run cs = length (takeWhile (\<lambda>c. col_a c = 0) cs)"

text \<open>All source pixels Encode reads, over the encoded zoom levels in order.\<close>

definition packed_pixels :: "env \<Rightarrow> GUISettings \<Rightarrow> SpriteType \<Rightarrow> SpriteCollection \<Rightarrow> CommonPixel list" where
  "packed_pixels e gui t sprite =
     concat (map (\<lambda>z. level_pixels (at_zoom sprite z)) (encoded_levels e gui t))"

text \<open>
  Two source pixels that agree in alpha and, when the alpha is not 0, in every field.
\<close>

definition same_visible :: "CommonPixel \<Rightarrow> CommonPixel \<Rightarrow> bool" where
  "same_visible p q \<longleftrightarrow> px_a p = px_a q \<and> (px_a p \<noteq> 0 \<longrightarrow> p = q)"

text \<open>
  The byte counts the specification gives the regions of a level: lines of
  \<open>8 + 4 * width\<close> bytes for the colour region, 2 bytes per pixel for the map-value
  region; and their sum over a list of levels.
\<close>

definition level_rgba_bytes :: "Sprite \<Rightarrow> nat" where
  "level_rgba_bytes s = (8 + 4 * unat (width s)) * unat (height s)"

definition level_mv_bytes :: "Sprite \<Rightarrow> nat" where
  "level_mv_bytes s = 2 * unat (width s) * unat (height s)"

definition level_bytes :: "Sprite \<Rightarrow> nat" where
  "level_bytes s = level_rgba_bytes s + level_mv_bytes s"

definition bytes_of_levels :: "(nat \<Rightarrow> Sprite) \<Rightarrow> nat list \<Rightarrow> nat" where
  "bytes_of_levels sp zs = sum_list (map (\<lambda>z. level_bytes (sp z)) zs)"

text \<open>
  The sizes the planner computes, in its own arithmetic: the line size as the 16-bit
  field holds it, the size of the colour region and of the whole level as \<^verbatim>\<open>uint\<close>
  values, and the running offset after a list of levels.
\<close>

definition stored_line_size :: "Sprite \<Rightarrow> uint16_t" where
  "stored_line_size s = of_nat (8 + 4 * unat (width s))"

definition planned_rgba_size :: "Sprite \<Rightarrow> uint" where
  "planned_rgba_size s = ucast (stored_line_size s) * height s"

definition planned_level_size :: "Sprite \<Rightarrow> uint" where
  "planned_level_size s = planned_rgba_size s + 2 * width s * height s"

definition planned_size :: "(nat \<Rightarrow> Sprite) \<Rightarrow> nat list \<Rightarrow> uint" where
  "planned_size sp zs = sum_list (map (\<lambda>z. planned_level_size (sp z)) zs)"

text \<open>
  The entry the planner stores for level \<open>z\<close> when it starts from offset \<open>a\<close> and the
  levels \<open>before\<close> have been planned.
\<close>

definition planned_info :: "(nat \<Rightarrow> Sprite) \<Rightarrow> uint \<Rightarrow> nat list \<Rightarrow> nat \<Rightarrow> SpriteInfo" where
  "planned_info sp a before z =
     \<lparr>sprite_width = ucast (width (sp z)),
      sprite_offset = a + planned_size sp before,
      sprite_line_size = stored_line_size (sp z),
      mv_offset = a + planned_size sp before + planned_rgba_size (sp z)\<rparr>"

text \<open>
  The layout of level \<open>z\<close> as the specification words it: the line size is
  \<open>8 + 4 * width\<close>; the colour region starts at the running offset, the bytes of the
  levels before \<open>z\<close>; the map-value region starts right after the colour region of line
  size times height bytes; it ends within the payload, and at or before the colour
  region of every later level; the payload size is the sum over all encoded levels.
\<close>

definition layout_as_planned :: "env \<Rightarrow> GUISettings \<Rightarrow> SpriteType \<Rightarrow> SpriteCollection \<Rightarrow> nat \<Rightarrow> bool" where
  "layout_as_planned e gui t sprite z \<longleftrightarrow>
     (let P = Encode e gui t sprite; s = at_zoom sprite z; I = infos P z;
          w = unat (width s); h = unat (height s)
      in unat (sprite_line_size I) = 8 + 4 * w \<and>
         unat (sprite_offset I) = bytes_of_levels (at_zoom sprite) [fst (zoom_range e gui t) ..< z] \<and>
         unat (mv_offset I) = unat (sprite_offset I) + unat (sprite_line_size I) * h \<and>
         unat (mv_offset I) + 2 * w * h \<le> unat (payload_size P) \<and>
         (\<forall>z' \<in> set (encoded_levels e gui t). z < z' \<longrightarrow>
            unat (mv_offset I) + 2 * w * h \<le> unat (sprite_offset (infos P z'))) \<and>
         unat (payload_size P) = bytes_of_levels (at_zoom sprite) (encoded_levels e gui t))"

subsection \<open>Sample inputs\<close>

text \<open>
  A sample environment (identity brightness adjustment, grey palette), the default zoom
  configuration, and a sprite of three lines of two pixels: a transparent pixel that still
  carries colour and an animation-range recolour index, an opaque one without
  recolouring, a translucent recoloured one, an opaque black one with an
  animation-range index, and a line of two transparent pixels.
\<close>

definition example_env :: env where
  "example_env =
     \<lparr>PALETTE_ANIM_START = 227, DEFAULT_BRIGHTNESS = 128,
      LookupColourInPalette = (\<lambda>m. \<lparr>col_r = m, col_g = m, col_b = m, col_a = 255\<rparr>),
      AdjustBrightneSSE = (\<lambda>c v. c),
      ZoomLevel_Min = 0, ZoomLevel_Max = 5\<rparr>"

definition example_gui :: GUISettings where
  "example_gui = \<lparr>zoom_min = 0, zoom_max = 5\<rparr>"

definition example_sprite :: Sprite where
  "example_sprite =
     \<lparr>height = 3, width = 2, x_offs = 0, y_offs = 0,
      data = [\<lparr>px_r = 7, px_g = 8, px_b = 9, px_a = 0, px_m = 240\<rparr>,
              \<lparr>px_r = 10, px_g = 20, px_b = 30, px_a = 255, px_m = 0\<rparr>,
              \<lparr>px_r = 1, px_g = 2, px_b = 3, px_a = 128, px_m = 5\<rparr>,
              \<lparr>px_r = 0, px_g = 0, px_b = 0, px_a = 255, px_m = 230\<rparr>,
              \<lparr>px_r = 0, px_g = 0, px_b = 0, px_a = 0, px_m = 0\<rparr>,
              \<lparr>px_r = 0, px_g = 0, px_b = 0, px_a = 0, px_m = 1\<rparr>]\<rparr>"

definition example_coll :: SpriteCollection where
  "example_coll = \<lparr>at_zoom = (\<lambda>z. example_sprite), Root = example_sprite\<rparr>"

text \<open>
  The sprite of the two-pixel scenario: one line, a transparent pixel with any colour and
  recolour index in front of an opaque pixel without recolouring.
\<close>

definition scenario_sprite :: "uint8_t \<Rightarrow> uint8_t \<Rightarrow> uint8_t \<Rightarrow> uint8_t \<Rightarrow> Sprite" where
  "scenario_sprite r0 g0 b0 m0 =
     \<lparr>height = 1, width = 2, x_offs = 0, y_offs = 0,
      data = [\<lparr>px_r = r0, px_g = g0, px_b = b0, px_a = 0, px_m = m0\<rparr>,
              \<lparr>px_r = 10, px_g = 20, px_b = 30, px_a = 255, px_m = 0\<rparr>]\<rparr>"

text \<open>A single transparent pixel that carries an animation-range recolour index.\<close>

definition hidden_index_sprite :: Sprite where
  "hidden_index_sprite =
     \<lparr>height = 1, width = 1, x_offs = 0, y_offs = 0,
      data = [\<lparr>px_r = 0, px_g = 0, px_b = 0, px_a = 0, px_m = 240\<rparr>]\<rparr>"

definition hidden_index_coll :: SpriteCollection where
  "hidden_index_coll = \<lparr>at_zoom = (\<lambda>z. hidden_index_sprite), Root = hidden_index_sprite\<rparr>"

text \<open>The sample sprite with other values in the fields of its transparent pixels.\<close>

definition example_sprite_cleared :: Sprite where
  "example_sprite_cleared =
     \<lparr>height = 3, width = 2, x_offs = 0, y_offs = 0,
      data = [\<lparr>px_r = 0, px_g = 0, px_b = 0, px_a = 0, px_m = 0\<rparr>,
              \<lparr>px_r = 10, px_g = 20, px_b = 30, px_a = 255, px_m = 0\<rparr>,
              \<lparr>px_r = 1, px_g = 2, px_b = 3, px_a = 128, px_m = 5\<rparr>,
              \<lparr>px_r = 0, px_g = 0, px_b = 0, px_a = 255, px_m = 230\<rparr>,
              \<lparr>px_r = 99, px_g = 98, px_b = 97, px_a = 0, px_m = 255\<rparr>,
              \<lparr>px_r = 0, px_g = 0, px_b = 0, px_a = 0, px_m = 0\<rparr>]\<rparr>"

definition example_coll_cleared :: SpriteCollection where
  "example_coll_cleared = \<lparr>at_zoom = (\<lambda>z. example_sprite_cleared), Root = example_sprite_cleared\<rparr>"

text \<open>
  Two zoom levels of 16000 by 30000 pixels each, under a configuration that encodes the
  levels 0 and 1; and a configuration whose minimum and maximum are both level 2.
\<close>

definition big_sprite :: Sprite where
  "big_sprite =
     \<lparr>height = 30000, width = 16000, x_offs = 0, y_offs = 0,
      data = replicate 480000000 \<lparr>px_r = 0, px_g = 0, px_b = 0, px_a = 0, px_m = 0\<rparr>\<rparr>"

definition big_coll :: SpriteCollection where
  "big_coll = \<lparr>at_zoom = (\<lambda>z. big_sprite), Root = big_sprite\<rparr>"

definition two_level_gui :: GUISettings where
  "two_level_gui = \<lparr>zoom_min = 0, zoom_max = 1\<rparr>"

definition single_level_gui :: GUISettings where
  "single_level_gui = \<lparr>zoom_min = 2, zoom_max = 2\<rparr>"

text \<open>
  A glyph of one line of 20000 pixels: 3615 transparent pixels, an opaque one, and
  16384 transparent ones.
\<close>

definition wide_glyph :: Sprite where
  "wide_glyph =
     \<lparr>height = 1, width = 20000, x_offs = 0, y_offs = 0,
      data = replicate 3615 \<lparr>px_r = 0, px_g = 0, px_b = 0, px_a = 0, px_m = 0\<rparr> @
             [\<lparr>px_r = 10, px_g = 20, px_b = 30, px_a = 255, px_m = 0\<rparr>] @
             replicate 16384 \<lparr>px_r = 0, px_g = 0, px_b = 0, px_a = 0, px_m = 0\<rparr>\<rparr>"

definition wide_coll :: SpriteCollection where
  "wide_coll = \<lparr>at_zoom = (\<lambda>z. wide_glyph), Root = wide_glyph\<rparr>"

text \<open>
  A glyph of six lines of 20000 pixels: the first line as in the glyph above, the other
  lines transparent.
\<close>

definition tall_glyph :: Sprite where
  "tall_glyph =
     \<lparr>height = 6, width = 20000, x_offs = 0, y_offs = 0,
      data = replicate 3615 \<lparr>px_r = 0, px_g = 0, px_b = 0, px_a = 0, px_m = 0\<rparr> @
             [\<lparr>px_r = 10, px_g = 20, px_b = 30, px_a = 255, px_m = 0\<rparr>] @
             replicate 116384 \<lparr>px_r = 0, px_g = 0, px_b = 0, px_a = 0, px_m = 0\<rparr>\<rparr>"

definition tall_coll :: SpriteCollection where
  "tall_coll = \<lparr>at_zoom = (\<lambda>z. tall_glyph), Root = tall_glyph\<rparr>"





subsection \<open>The packed levels as bytes\<close>










text \<open>
  The run is within its buffers: the byte counts of the encoded levels sum to less than
  \<open>2 ^ 32\<close>, the range of the running offset, so the allocation holds them; the line
  size \<open>8 + 4 * width\<close> of every encoded level is below \<open>2 ^ 16\<close>, the range of the
  field that stores it; and every encoded level's pixel buffer holds width times height
  pixels.
\<close>

definition fits_buffer :: "env \<Rightarrow> GUISettings \<Rightarrow> SpriteType \<Rightarrow> SpriteCollection \<Rightarrow> bool" where
  "fits_buffer e gui t sprite \<longleftrightarrow>
     bytes_of_levels (at_zoom sprite) (encoded_levels e gui t) < 2 ^ 32 \<and>
     (\<forall>z \<in> set (encoded_levels e gui t). 8 + 4 * unat (width (at_zoom sprite z)) < 2 ^ 16) \<and>
     (\<forall>z \<in> set (encoded_levels e gui t).
        unat (width (at_zoom sprite z)) * unat (height (at_zoom sprite z)) \<le> length (data (at_zoom sprite z)))"

section \<open>The packer as a map over the source pixels\<close>

lemma encode_pixel_fst: "fst (encode_pixel e f p) = pixel_colour e p"
  by (simp add: encode_pixel_def pixel_colour_def Let_def)

lemma encode_pixel_mv: "fst (snd (encode_pixel e f p)) = pixel_mv e p"
  by (simp add: encode_pixel_def pixel_mv_def Let_def)

lemma encode_pixel_acc: "snd (snd (encode_pixel e f p)) = acc_join e f [p]"
  by (simp add: encode_pixel_def acc_join_def px_remap_def px_anim_def px_translucent_def Let_def)

lemma acc_join_Nil: "acc_join e f [] = f"
  by (simp add: acc_join_def)

lemma acc_join_append: "acc_join e (acc_join e f ps) qs = acc_join e f (ps @ qs)"
  by (auto simp add: acc_join_def)

lemma encode_pixel_eq: "encode_pixel e f p = (pixel_colour e p, pixel_mv e p, acc_join e f [p])"
  by (metis encode_pixel_fst encode_pixel_mv encode_pixel_acc prod.collapse)

lemma encode_pixels_eq:
  "encode_pixels e f ps = (map (pixel_colour e) ps, map (pixel_mv e) ps, acc_join e f ps)"
proof (induction ps arbitrary: f)
  case Nil
  show ?case by (simp add: acc_join_Nil)
next
  case (Cons p ps)
  have "acc_join e (acc_join e f [p]) ps = acc_join e f (p # ps)"
    using acc_join_append [of e f "[p]" ps] by simp
  then show ?case by (simp add: encode_pixel_eq Cons.IH)
qed

lemma encode_line_eq:
  "encode_line e w S L M f src = (pack_line e w S L M src, map (pixel_mv e) src, acc_join e f src)"
  by (simp add: encode_line_def pack_line_def encode_pixels_eq)

lemma cells_pack_line: "cells (pack_line e w S L M src) = map (pixel_colour e) src"
  by (simp add: encode_line_def pack_line_def encode_pixels_eq)

lemma nb_left_pack_line:
  "nb_left (pack_line e w S L M src) =
     count_left (cell_at (map (pixel_colour e) src) L M) w (int L + 8) 0"
  by (simp add: encode_line_def pack_line_def encode_pixels_eq)

lemma nb_right_pack_line:
  "nb_right (pack_line e w S L M src) =
     count_right (cell_at (map (pixel_colour e) src) L M) w (int L + int S - 4) 0"
  by (simp add: encode_line_def pack_line_def encode_pixels_eq)

lemma src_line_fits:
  assumes "w * y \<le> length src" and "j < y"
  shows "length (src_line w src j) = w"
    and "i < w \<Longrightarrow> src_line w src j ! i = src ! (j * w + i)"
proof -
  from assms(2) have "Suc j \<le> y" by simp
  then have "w * Suc j \<le> w * y" by (rule mult_le_mono2)
  with assms(1) have le: "j * w + w \<le> length src" by (simp add: mult.commute)
  show "length (src_line w src j) = w"
    using le by (simp add: src_line_def)
  show "src_line w src j ! i = src ! (j * w + i)" if "i < w"
    using le that by (simp add: src_line_def)
qed

lemma pack_lines_0: "pack_lines e w S 0 src L M = []"
  by (simp add: pack_lines_def)

lemma pack_lines_Suc:
  "pack_lines e w S (Suc y) src L M =
     pack_line e w S L M (take w src) # pack_lines e w S y (drop w src) (L + S) (M + 2 * w)"
proof -
  have s0: "src_line w src 0 = take w src"
    by (simp add: src_line_def)
  have sS: "src_line w (drop w src) j = src_line w src (Suc j)" for j
    by (simp add: src_line_def add.commute)
  have up: "map g [0..<Suc y] = g 0 # map (\<lambda>j. g (Suc j)) [0..<y]" for g :: "nat \<Rightarrow> PackedLine"
    by (rule map_upt_Suc)
  show ?thesis
    unfolding pack_lines_def up by (simp add: s0 sS add.assoc)
qed

lemma pack_lines_nth:
  "j < y \<Longrightarrow> pack_lines e w S y src L M ! j =
     pack_line e w S (L + j * S) (M + j * (2 * w)) (src_line w src j)"
  by (simp add: pack_lines_def)

lemma length_pack_lines: "length (pack_lines e w S y src L M) = y"
  by (simp add: pack_lines_def)

lemma encode_lines_eq:
  "encode_lines e w S y f src L M =
     (pack_lines e w S y src L M, map (pixel_mv e) (take (w * y) src),
      acc_join e f (take (w * y) src))"
proof (induction y arbitrary: f src L M)
  case 0
  show ?case by (simp add: acc_join_Nil pack_lines_0)
next
  case (Suc y)
  have t: "take w src @ take (w * y) (drop w src) = take (w + w * y) src"
    by (simp add: take_add)
  show ?case
    unfolding encode_lines.simps encode_line_eq Suc.IH pack_lines_Suc
    by (simp add: acc_join_append t sizeof_MapValue_def flip: map_append)
qed

lemma encode_level_eq:
  "encode_level e f s info = (pack_level e info s, acc_join e f (level_pixels s))"
  by (simp add: encode_level_def pack_level_def encode_lines_eq level_pixels_def)

lemma lines_pack_level:
  "lines (pack_level e info s) =
     pack_lines e (unat (width s)) (unat (sprite_line_size info)) (unat (height s)) (data s)
       (unat (sprite_offset info)) (unat (mv_offset info))"
  by (simp add: encode_level_def pack_level_def encode_lines_eq)


lemma encode_levels_eq:
  "encode_levels e sp tbl zs f out =
     (foldl (\<lambda>m z. m(z \<mapsto> pack_level e (tbl z) (sp z))) out zs,
      acc_join e f (concat (map (\<lambda>z. level_pixels (sp z)) zs)))"
proof (induction zs arbitrary: f out)
  case Nil
  show ?case by (simp add: acc_join_Nil)
next
  case (Cons z zs)
  show ?case by (simp add: encode_level_eq Cons.IH acc_join_append)
qed

lemma foldl_upd_in:
  "z \<in> set zs \<Longrightarrow> foldl (\<lambda>m z. m(z \<mapsto> g z)) out zs z = Some (g z)"
proof (induction zs arbitrary: out rule: rev_induct)
  case Nil
  then show ?case by simp
next
  case (snoc a zs)
  then show ?case by (cases "z = a") simp_all
qed

lemma foldl_upd_notin:
  "z \<notin> set zs \<Longrightarrow> foldl (\<lambda>m z. m(z \<mapsto> g z)) out zs z = out z"
  by (induction zs arbitrary: out rule: rev_induct) simp_all

lemma infos_Encode:
  "infos (Encode e gui t sprite) =
     fst (plan_levels (at_zoom sprite) (encoded_levels e gui t) (\<lambda>z. SpriteInfo_zero) 0)"
  by (simp add: Encode_def Let_def encoded_levels_def)

lemma payload_Encode_in:
  "z \<in> set (encoded_levels e gui t) \<Longrightarrow>
     payload (Encode e gui t sprite) z =
       Some (pack_level e (infos (Encode e gui t sprite) z) (at_zoom sprite z))"
  by (simp add: Encode_def Let_def encode_levels_eq encoded_levels_def foldl_upd_in)

lemma payload_Encode_notin:
  "z \<notin> set (encoded_levels e gui t) \<Longrightarrow> payload (Encode e gui t sprite) z = None"
  by (simp add: Encode_def Let_def encode_levels_eq encoded_levels_def foldl_upd_notin)



section \<open>The counting loops\<close>

lemma transp_run_Cons:
  "transp_run (c # cs) = (if col_a c = 0 then Suc (transp_run cs) else 0)"
  by (simp add: transp_run_def)

lemma count_left_eq:
  assumes "\<And>j. j < length xs \<Longrightarrow> rd (p + 4 * int j) = Some (xs ! j)"
  shows "count_left rd (length xs) p nb = Some (nb + of_nat (transp_run xs))"
  using assms
proof (induction xs arbitrary: p nb)
  case Nil
  show ?case by (simp add: transp_run_def)
next
  case (Cons c cs)
  have hd: "rd p = Some c" using Cons.prems [of 0] by simp
  have tl: "rd (p + 4 + 4 * int j) = Some (cs ! j)" if "j < length cs" for j
    using Cons.prems [of "Suc j"] that by (simp add: algebra_simps)
  show ?case
    using Cons.IH [of "p + 4" "nb + 1", OF tl] hd by (simp add: transp_run_Cons)
qed

lemma count_right_eq:
  assumes "\<And>j. j < length xs \<Longrightarrow> rd (p - 4 * int j) = Some (xs ! j)"
  shows "count_right rd (length xs) p nb = Some (nb + of_nat (transp_run xs))"
  using assms
proof (induction xs arbitrary: p nb)
  case Nil
  show ?case by (simp add: transp_run_def)
next
  case (Cons c cs)
  have hd: "rd p = Some c" using Cons.prems [of 0] by simp
  have tl: "rd (p - 4 - 4 * int j) = Some (cs ! j)" if "j < length cs" for j
    using Cons.prems [of "Suc j"] that by (simp add: algebra_simps)
  show ?case
    using Cons.IH [of "p - 4" "nb + 1", OF tl] hd by (simp add: transp_run_Cons)
qed

lemma count_left_numeral:
  "count_left rd (numeral n) p nb =
     (case rd p of None \<Rightarrow> None
      | Some c \<Rightarrow> if col_a c = 0 then count_left rd (pred_numeral n) (p + 4) (nb + 1) else Some nb)"
  by (simp add: numeral_eq_Suc)

lemma count_right_numeral:
  "count_right rd (numeral n) p nb =
     (case rd p of None \<Rightarrow> None
      | Some c \<Rightarrow> if col_a c = 0 then count_right rd (pred_numeral n) (p - 4) (nb + 1) else Some nb)"
  by (simp add: numeral_eq_Suc)

lemma count_left_run:
  assumes "\<And>j. j < k \<Longrightarrow> \<exists>c. rd (p + 4 * int j) = Some c \<and> col_a c = 0"
      and "rd (p + 4 * int k) = Some c" and "col_a c \<noteq> 0" and "k < x"
  shows "count_left rd x p nb = Some (nb + of_nat k)"
  using assms
proof (induction k arbitrary: x p nb)
  case 0
  then obtain x' where "x = Suc x'" by (cases x) simp_all
  with 0 show ?case by simp
next
  case (Suc k)
  from Suc.prems(4) obtain x' where x: "x = Suc x'" and k: "k < x'" by (cases x) simp_all
  from Suc.prems(1) [of 0] obtain c0 where c0: "rd p = Some c0" "col_a c0 = 0" by auto
  have tl: "\<exists>c. rd (p + 4 + 4 * int j) = Some c \<and> col_a c = 0" if "j < k" for j
    using Suc.prems(1) [of "Suc j"] that by (simp add: algebra_simps)
  have st: "rd (p + 4 + 4 * int k) = Some c"
    using Suc.prems(2) by (simp add: algebra_simps)
  show ?case
    using Suc.IH [of "p + 4" x' "nb + 1", OF tl st Suc.prems(3) k] c0
    by (simp add: x)
qed

lemma count_right_stop:
  "0 < x \<Longrightarrow> rd p = Some c \<Longrightarrow> col_a c \<noteq> 0 \<Longrightarrow> count_right rd x p nb = Some nb"
  by (cases x) simp_all

lemma cell_at_cell:
  assumes "i < length cs"
      and "M + 2 * length cs \<le> L + 8 + 4 * i \<or> L + 8 + 4 * i + 4 \<le> M + 2 * i"
  shows "cell_at cs L M (int L + 8 + 4 * int i) = Some (cs ! i)"
proof -
  have "int M + 2 * int (length cs) \<le> int L + 8 + 4 * int i \<or>
        int L + 8 + 4 * int i + 4 \<le> int M + 2 * int i"
    using assms(2) by linarith
  then show ?thesis
    using assms(1) by (simp add: cell_at_def Let_def)
qed

text \<open>
  A line whose map values are stored behind its cells: both loops read the cells of the
  line, from the first one upwards and from the last one downwards.
\<close>

lemma pack_line_counts:
  fixes e :: env
  assumes len: "length src = w" and S: "S = 8 + 4 * w" and M: "L + S \<le> M"
  defines "cs \<equiv> map (pixel_colour e) src"
  shows "nb_left (pack_line e w S L M src) = Some (of_nat (transp_run cs))"
    and "nb_right (pack_line e w S L M src) = Some (of_nat (transp_run (rev cs)))"
proof -
  have lc: "length cs = w" by (simp add: cs_def len)
  have rd: "cell_at cs L M (int L + 8 + 4 * int i) = Some (cs ! i)" if "i < w" for i
    by (rule cell_at_cell) (use that M S lc in simp_all)
  have l: "cell_at cs L M (int L + 8 + 4 * int j) = Some (cs ! j)" if "j < length cs" for j
    using rd [of j] that lc by simp
  have r: "cell_at cs L M (int L + int S - 4 - 4 * int j) = Some (rev cs ! j)" if "j < length (rev cs)" for j
  proof -
    from that have j: "j < w" by (simp add: lc)
    then have i: "w - Suc j < w" by simp
    have eq: "int L + int S - 4 - 4 * int j = int L + 8 + 4 * int (w - Suc j)"
      using j by (simp add: S of_nat_diff algebra_simps)
    have nth: "rev cs ! j = cs ! (w - Suc j)"
      using j by (simp add: rev_nth lc)
    show ?thesis unfolding eq nth by (rule rd [OF i])
  qed
  show "nb_left (pack_line e w S L M src) = Some (of_nat (transp_run cs))"
    using count_left_eq [of cs "cell_at cs L M" "int L + 8" 0, OF l]
    by (simp add: nb_left_pack_line lc flip: cs_def)
  show "nb_right (pack_line e w S L M src) = Some (of_nat (transp_run (rev cs)))"
    using count_right_eq [of "rev cs" "cell_at cs L M" "int L + int S - 4" 0, OF r]
    by (simp add: nb_right_pack_line lc flip: cs_def)
qed

lemma takeWhile_prefix_all:
  "i < length (takeWhile P xs) \<Longrightarrow> P (xs ! i)"
  by (metis nth_mem set_takeWhileD takeWhile_nth)

lemma transp_run_facts:
  fixes cs :: "Colour list"
  defines "n \<equiv> transp_run cs"
  shows "n \<le> length cs"
    and "\<forall>i<n. col_a (cs ! i) = 0"
    and "n < length cs \<longrightarrow> col_a (cs ! n) \<noteq> 0"
    and "(\<forall>c \<in> set cs. col_a c = 0) \<longrightarrow> n = length cs"
proof -
  have n: "n = length (takeWhile (\<lambda>c. col_a c = 0) cs)"
    by (simp add: n_def transp_run_def)
  show "n \<le> length cs"
    unfolding n by (rule length_takeWhile_le)
  show "\<forall>i<n. col_a (cs ! i) = 0"
    unfolding n using takeWhile_prefix_all [of _ "\<lambda>c. col_a c = 0" cs] by blast
  show "n < length cs \<longrightarrow> col_a (cs ! n) \<noteq> 0"
    unfolding n using nth_length_takeWhile [of "\<lambda>c. col_a c = 0" cs] by blast
  show "(\<forall>c \<in> set cs. col_a c = 0) \<longrightarrow> n = length cs"
  proof
    assume "\<forall>c \<in> set cs. col_a c = 0"
    then have "takeWhile (\<lambda>c. col_a c = 0) cs = cs"
      by (simp add: takeWhile_eq_all_conv)
    then show "n = length cs" unfolding n by (rule arg_cong [of _ _ length])
  qed
qed

lemma unat_of_nat32: "n < 2 ^ 32 \<Longrightarrow> unat (of_nat n :: uint) = n"
  by (simp add: unat_of_nat)

lemma unat_transp_run:
  "length cs = unat (w :: uint) \<Longrightarrow> unat (of_nat (transp_run cs) :: uint) = transp_run cs"
proof -
  assume l: "length cs = unat w"
  have "transp_run cs \<le> length cs" by (rule transp_run_facts(1))
  moreover have "unat w < 2 ^ 32" using unsigned_less [of w] by simp
  ultimately have "transp_run cs < 2 ^ 32" using l by simp
  then show ?thesis by (rule unat_of_nat32)
qed

text \<open>
  The lines of a level that the planner has laid out with the line size \<open>8 + 4 * width\<close>
  and the map values behind the lines.
\<close>

lemma pack_level_line:
  fixes e :: env
  assumes wf: "unat (width s) * unat (height s) \<le> length (data s)"
      and y: "y < unat (height s)"
      and ls: "unat (sprite_line_size info) = 8 + 4 * unat (width s)"
      and mv: "unat (mv_offset info) = unat (sprite_offset info) + level_rgba_bytes s"
  defines "l \<equiv> lines (pack_level e info s) ! y"
  shows "cells l = map (pixel_colour e) (src_line (unat (width s)) (data s) y)"
    and "length (cells l) = unat (width s)"
    and "nb_left l = Some (of_nat (transp_run (cells l)))"
    and "nb_right l = Some (of_nat (transp_run (rev (cells l))))"
proof -
  define w where "w = unat (width s)"
  define S where "S = unat (sprite_line_size info)"
  define L where "L = unat (sprite_offset info) + y * S"
  define M where "M = unat (mv_offset info) + y * (2 * w)"
  define src where "src = src_line w (data s) y"
  have l: "l = pack_line e w S L M src"
    using y by (simp add: l_def lines_pack_level pack_lines_nth w_def S_def L_def M_def src_def)
  have len: "length src = w"
    unfolding src_def w_def by (rule src_line_fits(1) [OF wf y])
  have S: "S = 8 + 4 * w" by (simp add: S_def ls w_def)
  from y have "Suc y \<le> unat (height s)" by simp
  then have "Suc y * S \<le> unat (height s) * S" by (rule mult_le_mono1)
  then have "y * S + S \<le> S * unat (height s)" by (simp add: mult.commute)
  then have M: "L + S \<le> M"
    by (simp add: L_def M_def mv level_rgba_bytes_def S w_def)
  show c: "cells l = map (pixel_colour e) (src_line (unat (width s)) (data s) y)"
    by (simp add: l cells_pack_line src_def w_def)
  show "length (cells l) = unat (width s)"
    using len by (simp add: c src_def w_def)
  show "nb_left l = Some (of_nat (transp_run (cells l)))"
    using pack_line_counts(1) [OF len S M, of e] by (simp add: l cells_pack_line)
  show "nb_right l = Some (of_nat (transp_run (rev (cells l))))"
    using pack_line_counts(2) [OF len S M, of e] by (simp add: l cells_pack_line)
qed

section \<open>Pixels, flags and zoom levels\<close>

lemma pixel_colour_alpha: "col_a (pixel_colour e p) = px_a p"
  by (simp add: pixel_colour_def encode_pixel_def Let_def Colour_zero_def)


lemma encoded_levels_Font: "encoded_levels e gui Font = [ZoomLevel_Min e]"
  by (simp add: encoded_levels_def zoom_levels_def zoom_range_def)




lemma flags_Encode:
  "flags (Encode e gui t sprite) = store_flags (acc_join e acc_init (packed_pixels e gui t sprite))"
  by (simp add: Encode_def Let_def encode_levels_eq packed_pixels_def encoded_levels_def)

lemma a_between: "(0 < unat a \<and> unat a < 255) \<longleftrightarrow> (a \<noteq> 0 \<and> a \<noteq> 255)" for a :: uint8_t
proof -
  have "unat a < 256" using unsigned_less [of a] by simp
  moreover have "a = 255 \<longleftrightarrow> unat a = 255" by (simp add: word_unat_eq_iff)
  moreover have "a = 0 \<longleftrightarrow> unat a = 0" by (simp add: unat_eq_0)
  ultimately show ?thesis by auto
qed

lemma hidden_index_pixels:
  "packed_pixels example_env example_gui Font hidden_index_coll =
     [\<lparr>px_r = 0, px_g = 0, px_b = 0, px_a = 0, px_m = 240\<rparr>]"
  by (simp add: packed_pixels_def encoded_levels_Font level_pixels_def
      hidden_index_coll_def hidden_index_sprite_def)

lemma acc_join_same_visible:
  assumes "list_all2 same_visible ps qs"
  shows "acc_join e f ps = acc_join e f qs"
proof -
  have ex: "(\<exists>p \<in> set ps. P p) \<longleftrightarrow> (\<exists>q \<in> set qs. P q)"
    if "\<And>p q. same_visible p q \<Longrightarrow> P p \<longleftrightarrow> P q" for P
    using assms that by (induction rule: list_all2_induct) auto
  have "(\<exists>p \<in> set ps. px_remap p) \<longleftrightarrow> (\<exists>q \<in> set qs. px_remap q)"
    by (rule ex) (auto simp: same_visible_def px_remap_def)
  moreover have "(\<exists>p \<in> set ps. px_anim e p) \<longleftrightarrow> (\<exists>q \<in> set qs. px_anim e q)"
    by (rule ex) (auto simp: same_visible_def px_anim_def)
  moreover have "(\<exists>p \<in> set ps. px_translucent p) \<longleftrightarrow> (\<exists>q \<in> set qs. px_translucent q)"
    by (rule ex) (auto simp: same_visible_def px_translucent_def)
  ultimately show ?thesis by (simp add: acc_join_def)
qed

lemma acc_join_levels_same_visible:
  assumes "\<forall>z \<in> set zs. list_all2 same_visible (level_pixels (sp z)) (level_pixels (sp' z))"
  shows "acc_join e f (concat (map (\<lambda>z. level_pixels (sp z)) zs)) =
         acc_join e f (concat (map (\<lambda>z. level_pixels (sp' z)) zs))"
  using assms
proof (induction zs arbitrary: f)
  case Nil
  show ?case by simp
next
  case (Cons z zs)
  from Cons.prems have hd: "list_all2 same_visible (level_pixels (sp z)) (level_pixels (sp' z))"
    and tl: "\<forall>z \<in> set zs. list_all2 same_visible (level_pixels (sp z)) (level_pixels (sp' z))"
    by simp_all
  show ?case
    using acc_join_same_visible [OF hd, of e f] Cons.IH [OF tl]
    by (simp flip: acc_join_append)
qed

lemma example_pixels:
  "packed_pixels example_env example_gui Font example_coll = data example_sprite"
  by (simp add: packed_pixels_def encoded_levels_Font level_pixels_def
      example_coll_def example_sprite_def)

section \<open>The planner in closed form\<close>

lemma plan_levels_step:
  "plan_levels sp (z # zs) tbl a =
     plan_levels sp zs (tbl(z := planned_info sp a [] z)) (a + planned_level_size (sp z))"
  by (simp add: Let_def planned_info_def planned_size_def planned_level_size_def planned_rgba_size_def
      stored_line_size_def sizeof_Colour_def sizeof_uint32_t_def sizeof_MapValue_def META_LENGTH_def
      add.commute)

lemma plan_levels_snd:
  "snd (plan_levels sp zs tbl a) = a + planned_size sp zs"
proof (induction zs arbitrary: tbl a)
  case Nil
  show ?case by (simp add: planned_size_def)
next
  case (Cons z zs)
  show ?case
    unfolding plan_levels_step Cons.IH by (simp add: planned_size_def)
qed

lemma plan_levels_notin:
  "z \<notin> set zs \<Longrightarrow> fst (plan_levels sp zs tbl a) z = tbl z"
proof (induction zs arbitrary: tbl a)
  case Nil
  show ?case by simp
next
  case (Cons y zs)
  then show ?case
    unfolding plan_levels_step by simp
qed

lemma plan_levels_nth:
  "distinct zs \<Longrightarrow> k < length zs \<Longrightarrow>
     fst (plan_levels sp zs tbl a) (zs ! k) = planned_info sp a (take k zs) (zs ! k)"
proof (induction zs arbitrary: tbl a k)
  case Nil
  then show ?case by simp
next
  case (Cons y zs)
  show ?case
  proof (cases k)
    case 0
    with Cons.prems show ?thesis
      unfolding plan_levels_step by (simp add: plan_levels_notin)
  next
    case (Suc j)
    with Cons.prems have d: "distinct zs" and j: "j < length zs" by simp_all
    have "planned_info sp (a + planned_level_size (sp y)) (take j zs) (zs ! j) =
          planned_info sp a (y # take j zs) (zs ! j)"
      by (simp add: planned_info_def planned_size_def add.assoc)
    with Cons.IH [OF d j] Suc show ?thesis
      unfolding plan_levels_step by simp
  qed
qed

lemma payload_size_Encode:
  "payload_size (Encode e gui t sprite) = planned_size (at_zoom sprite) (encoded_levels e gui t)"
  by (simp add: Encode_def Let_def encoded_levels_def plan_levels_snd)

lemma encoded_levels_upt:
  "encoded_levels e gui t = [fst (zoom_range e gui t) ..< Suc (snd (zoom_range e gui t))]"
  by (simp add: encoded_levels_def zoom_levels_def)

lemma bytes_of_levels_append:
  "bytes_of_levels sp (xs @ ys) = bytes_of_levels sp xs + bytes_of_levels sp ys"
  by (simp add: bytes_of_levels_def)

lemma upt_split3:
  assumes "lo \<le> z" and "z < hi"
  shows "[lo..<hi] = [lo..<z] @ z # [Suc z..<hi]"
proof -
  have "[lo..<hi] = [lo..<z] @ [z..<hi]"
    using upt_add_eq_append [of lo z "hi - z"] assms by simp
  also have "[z..<hi] = z # [Suc z..<hi]"
    using assms(2) by (rule upt_conv_Cons)
  finally show ?thesis .
qed

lemma infos_Encode_in:
  assumes "z \<in> set (encoded_levels e gui t)"
  shows "infos (Encode e gui t sprite) z =
           planned_info (at_zoom sprite) 0 [fst (zoom_range e gui t) ..< z] z"
proof -
  define lo where "lo = fst (zoom_range e gui t)"
  define hi where "hi = Suc (snd (zoom_range e gui t))"
  have zs: "encoded_levels e gui t = [lo..<hi]"
    by (simp add: encoded_levels_upt lo_def hi_def)
  from assms have b: "lo \<le> z" "z < hi" by (simp_all add: zs)
  then have k: "z - lo < length [lo..<hi]" by simp
  have n: "[lo..<hi] ! (z - lo) = z" using b by simp
  have tk: "take (z - lo) [lo..<hi] = [lo..<z]" using b by (simp add: take_upt)
  from plan_levels_nth [OF distinct_upt k, of "at_zoom sprite" "\<lambda>z. SpriteInfo_zero" 0]
  show ?thesis
    by (simp add: infos_Encode zs n tk flip: lo_def)
qed

text \<open>
  Where the line size \<open>8 + 4 * width\<close> is below \<open>2 ^ 16\<close>, the field holds it, and the
  planner's sizes are the byte counts of the specification modulo \<open>2 ^ 32\<close>.
\<close>

lemma unat_stored_line_size:
  "8 + 4 * unat (width s) < 2 ^ 16 \<Longrightarrow> unat (stored_line_size s) = 8 + 4 * unat (width s)"
  unfolding stored_line_size_def unat_of_nat by simp

lemma planned_rgba_size_eq:
  assumes "8 + 4 * unat (width s) < 2 ^ 16"
  shows "planned_rgba_size s = of_nat (level_rgba_bytes s)"
proof -
  have "(ucast (stored_line_size s) :: uint) = of_nat (unat (stored_line_size s))"
    by simp
  then show ?thesis
    by (simp add: planned_rgba_size_def level_rgba_bytes_def unat_stored_line_size [OF assms])
qed

lemma planned_level_size_eq:
  assumes "8 + 4 * unat (width s) < 2 ^ 16"
  shows "planned_level_size s = of_nat (level_bytes s)"
  by (simp add: planned_level_size_def planned_rgba_size_eq [OF assms] level_bytes_def level_mv_bytes_def)

lemma planned_size_eq:
  assumes "\<forall>z \<in> set zs. 8 + 4 * unat (width (sp z)) < 2 ^ 16"
  shows "planned_size sp zs = of_nat (bytes_of_levels sp zs)"
  using assms
  by (induction zs) (simp_all add: planned_size_def bytes_of_levels_def planned_level_size_eq)

text \<open>
  For a layout within the ranges of the running offset and of the line-size field, the
  entry of an encoded level and the payload size hold the byte counts of the
  specification.
\<close>

lemma planned_layout:
  assumes lt: "bytes_of_levels (at_zoom sprite) (encoded_levels e gui t) < 2 ^ 32"
      and wd: "\<forall>z \<in> set (encoded_levels e gui t). 8 + 4 * unat (width (at_zoom sprite z)) < 2 ^ 16"
      and z: "z \<in> set (encoded_levels e gui t)"
  shows "unat (sprite_line_size (infos (Encode e gui t sprite) z)) =
           8 + 4 * unat (width (at_zoom sprite z))"
    and "unat (sprite_offset (infos (Encode e gui t sprite) z)) =
           bytes_of_levels (at_zoom sprite) [fst (zoom_range e gui t) ..< z]"
    and "unat (mv_offset (infos (Encode e gui t sprite) z)) =
           bytes_of_levels (at_zoom sprite) [fst (zoom_range e gui t) ..< z] +
           level_rgba_bytes (at_zoom sprite z)"
    and "unat (payload_size (Encode e gui t sprite)) =
           bytes_of_levels (at_zoom sprite) (encoded_levels e gui t)"
proof -
  define sp where "sp = at_zoom sprite"
  define lo where "lo = fst (zoom_range e gui t)"
  define hi where "hi = Suc (snd (zoom_range e gui t))"
  define T where "T = bytes_of_levels sp [lo..<hi]"
  have zs: "encoded_levels e gui t = [lo..<hi]"
    by (simp add: encoded_levels_upt lo_def hi_def)
  from lt have T: "T < 2 ^ 32" by (simp add: T_def zs sp_def)
  from z have b: "lo \<le> z" "z < hi" by (simp_all add: zs)
  have split: "T = bytes_of_levels sp [lo..<z] + level_bytes (sp z) + bytes_of_levels sp [Suc z..<hi]"
    unfolding T_def upt_split3 [OF b] by (simp add: bytes_of_levels_def)
  from split T have b1: "bytes_of_levels sp [lo..<z] < 2 ^ 32"
    and b2: "bytes_of_levels sp [lo..<z] + level_rgba_bytes (sp z) < 2 ^ 32"
    by (simp_all add: level_bytes_def)
  from wd z have wz: "8 + 4 * unat (width (sp z)) < 2 ^ 16"
    by (simp add: sp_def)
  from wd b have wpre: "\<forall>z' \<in> set [lo..<z]. 8 + 4 * unat (width (sp z')) < 2 ^ 16"
    by (simp add: zs sp_def)
  from wd have wall: "\<forall>z' \<in> set [lo..<hi]. 8 + 4 * unat (width (sp z')) < 2 ^ 16"
    by (simp add: zs sp_def)
  have I: "infos (Encode e gui t sprite) z = planned_info sp 0 [lo..<z] z"
    using infos_Encode_in [OF z] by (simp add: sp_def lo_def)
  have ps: "planned_size sp [lo..<z] = of_nat (bytes_of_levels sp [lo..<z])"
    by (rule planned_size_eq [OF wpre])
  show "unat (sprite_line_size (infos (Encode e gui t sprite) z)) =
           8 + 4 * unat (width (at_zoom sprite z))"
    unfolding sp_def [symmetric] I
    using unat_stored_line_size [OF wz] by (simp add: planned_info_def)
  show "unat (sprite_offset (infos (Encode e gui t sprite) z)) =
           bytes_of_levels (at_zoom sprite) [fst (zoom_range e gui t) ..< z]"
    unfolding sp_def [symmetric] lo_def [symmetric] I
    using unat_of_nat32 [OF b1] by (simp add: planned_info_def ps)
  have "mv_offset (planned_info sp 0 [lo..<z] z) =
          of_nat (bytes_of_levels sp [lo..<z] + level_rgba_bytes (sp z))"
    by (simp add: planned_info_def ps planned_rgba_size_eq [OF wz])
  then show "unat (mv_offset (infos (Encode e gui t sprite) z)) =
           bytes_of_levels (at_zoom sprite) [fst (zoom_range e gui t) ..< z] +
           level_rgba_bytes (at_zoom sprite z)"
    unfolding sp_def [symmetric] lo_def [symmetric] I
    using unat_of_nat32 [OF b2] by simp
  show "unat (payload_size (Encode e gui t sprite)) =
           bytes_of_levels (at_zoom sprite) (encoded_levels e gui t)"
    unfolding payload_size_Encode zs sp_def [symmetric]
    using unat_of_nat32 [OF T] planned_size_eq [OF wall]
    by (simp add: T_def)
qed

lemma two_levels: "encoded_levels example_env two_level_gui NotFont = [0, 1]"
  by (simp add: encoded_levels_def zoom_levels_def zoom_range_def two_level_gui_def upt_rec)

lemma two_level_range: "zoom_range example_env two_level_gui NotFont = (0, 1)"
  by (simp add: zoom_range_def two_level_gui_def)

lemma big_level_bytes: "level_rgba_bytes big_sprite = 1920240000" "level_bytes big_sprite = 2880240000"
  by (simp_all add: level_bytes_def level_rgba_bytes_def level_mv_bytes_def big_sprite_def)

section \<open>The sample inputs evaluated\<close>

lemma example_info:
  "infos (Encode example_env example_gui Font example_coll) 0 =
     \<lparr>sprite_width = 2, sprite_offset = 0, sprite_line_size = 16, mv_offset = 48\<rparr>"
proof -
  have "(0::nat) \<in> set (encoded_levels example_env example_gui Font)"
    by (simp add: encoded_levels_Font example_env_def)
  from infos_Encode_in [OF this, of example_coll] show ?thesis
    by (simp add: zoom_range_def planned_info_def planned_size_def planned_rgba_size_def
        stored_line_size_def example_coll_def example_sprite_def example_env_def)
qed

lemma example_level:
  "payload (Encode example_env example_gui Font example_coll) 0 =
     Some (pack_level example_env
            \<lparr>sprite_width = 2, sprite_offset = 0, sprite_line_size = 16, mv_offset = 48\<rparr>
            example_sprite)"
  using payload_Encode_in [of 0 example_env example_gui Font example_coll]
  unfolding example_info
  by (simp add: encoded_levels_Font example_env_def example_coll_def)

lemma example_lines:
  "lines (pack_level example_env
            \<lparr>sprite_width = 2, sprite_offset = 0, sprite_line_size = 16, mv_offset = 48\<rparr>
            example_sprite) =
     [\<lparr>nb_left = Some 1, nb_right = Some 0,
       cells = [Colour_zero, \<lparr>col_r = 10, col_g = 20, col_b = 30, col_a = 255\<rparr>]\<rparr>,
      \<lparr>nb_left = Some 0, nb_right = Some 0,
       cells = [\<lparr>col_r = 5, col_g = 5, col_b = 5, col_a = 128\<rparr>,
                \<lparr>col_r = 230, col_g = 230, col_b = 230, col_a = 255\<rparr>]\<rparr>,
      \<lparr>nb_left = Some 2, nb_right = Some 2, cells = [Colour_zero, Colour_zero]\<rparr>]"
proof -
  have p: "pack_lines e w S 3 src L M =
      [pack_line e w S L M (take w src),
       pack_line e w S (L + S) (M + 2 * w) (take w (drop w src)),
       pack_line e w S (L + S + S) (M + 2 * w + 2 * w) (take w (drop w (drop w src)))]"
    for e w S src L M
    by (simp add: numeral_3_eq_3 pack_lines_Suc pack_lines_0)
  show ?thesis
    by (simp add: lines_pack_level p example_sprite_def
        encode_line_def pack_line_def encode_pixel_def example_env_def acc_init_def Colour_zero_def
        count_left_numeral count_right_numeral cell_at_def)
qed

lemma big_infos:
  "infos (Encode example_env two_level_gui NotFont big_coll) 1 =
     \<lparr>sprite_width = 16000, sprite_offset = 2880240000, sprite_line_size = 64008,
      mv_offset = 505512704\<rparr>"
proof -
  have "(1::nat) \<in> set (encoded_levels example_env two_level_gui NotFont)"
    by (simp add: two_levels)
  from infos_Encode_in [OF this, of big_coll] show ?thesis
    by (simp add: two_level_range planned_info_def planned_size_def planned_level_size_def
        planned_rgba_size_def stored_line_size_def big_coll_def big_sprite_def)
qed

lemma wide_infos:
  "infos (Encode example_env example_gui Font wide_coll) 0 =
     \<lparr>sprite_width = 20000, sprite_offset = 0, sprite_line_size = 14472, mv_offset = 14472\<rparr>"
proof -
  have "(0::nat) \<in> set (encoded_levels example_env example_gui Font)"
    by (simp add: encoded_levels_Font example_env_def)
  from infos_Encode_in [OF this, of wide_coll] show ?thesis
    by (simp add: zoom_range_def planned_info_def planned_size_def planned_rgba_size_def
        stored_line_size_def wide_coll_def wide_glyph_def example_env_def)
qed

lemma wide_payload_size:
  "payload_size (Encode example_env example_gui Font wide_coll) = 54472"
  by (simp add: payload_size_Encode encoded_levels_Font example_env_def planned_size_def
      planned_level_size_def planned_rgba_size_def stored_line_size_def wide_coll_def wide_glyph_def)

lemma wide_line:
  "payload (Encode example_env example_gui Font wide_coll) 0 \<noteq> None"
  "cells (lines (the (payload (Encode example_env example_gui Font wide_coll) 0)) ! 0) =
     replicate 3615 Colour_zero @
     [\<lparr>col_r = 10, col_g = 20, col_b = 30, col_a = 255\<rparr>] @ replicate 16384 Colour_zero"
  "nb_left (lines (the (payload (Encode example_env example_gui Font wide_coll) 0)) ! 0) = Some 3615"
  "nb_right (lines (the (payload (Encode example_env example_gui Font wide_coll) 0)) ! 0) = Some 0"
proof -
  define I where "I = \<lparr>sprite_width = 20000, sprite_offset = 0, sprite_line_size = 14472,
      mv_offset = 14472 :: uint\<rparr>"
  define cs where "cs = replicate 3615 Colour_zero @
     [\<lparr>col_r = 10, col_g = 20, col_b = 30, col_a = 255\<rparr>] @ replicate 16384 Colour_zero"
  define l where "l = pack_line example_env 20000 14472 0 14472 (data wide_glyph)"
  have z: "(0::nat) \<in> set (encoded_levels example_env example_gui Font)"
    by (simp add: encoded_levels_Font example_env_def)
  have p: "payload (Encode example_env example_gui Font wide_coll) 0 =
             Some (pack_level example_env I wide_glyph)"
    using payload_Encode_in [OF z, of wide_coll] unfolding wide_infos
    by (simp add: wide_coll_def I_def)
  have len: "length (data wide_glyph) = 20000" by (simp add: wide_glyph_def)
  have sl: "src_line 20000 (data wide_glyph) 0 = data wide_glyph"
    by (simp add: src_line_def len)
  have wh: "unat (width wide_glyph) = 20000" "unat (height wide_glyph) = 1"
    by (simp_all add: wide_glyph_def)
  have "lines (pack_level example_env I wide_glyph) ! 0 =
          pack_line example_env 20000 14472 (0 + 0 * 14472) (14472 + 0 * (2 * 20000))
            (src_line 20000 (data wide_glyph) 0)"
    unfolding lines_pack_level wh
    by (simp add: pack_lines_nth I_def)
  then have l0: "lines (pack_level example_env I wide_glyph) ! 0 = l"
    by (simp add: sl l_def)
  have c: "map (pixel_colour example_env) (data wide_glyph) = cs"
    by (simp add: wide_glyph_def pixel_colour_def encode_pixel_def cs_def Colour_zero_def)
  have lc: "length cs = 20000" by (simp add: cs_def)
  have front: "cs ! j = Colour_zero" if "j < 3615" for j
    using that by (simp add: cs_def nth_append)
  have mid: "cs ! 3615 = \<lparr>col_r = 10, col_g = 20, col_b = 30, col_a = 255\<rparr>"
    by (simp add: cs_def nth_append)
  have rd: "cell_at cs 0 14472 (int 0 + 8 + 4 * int j) = Some (cs ! j)" if "j \<le> 3615" for j
    by (rule cell_at_cell) (use that lc in simp_all)
  have rdf: "\<exists>c. cell_at cs 0 14472 (8 + 4 * int j) = Some c \<and> col_a c = 0" if "j < 3615" for j
    using rd [of j] front [OF that] that by (simp add: Colour_zero_def)
  have rdm: "cell_at cs 0 14472 (8 + 4 * int 3615) = Some \<lparr>col_r = 10, col_g = 20, col_b = 30, col_a = 255\<rparr>"
    using rd [of 3615] mid by simp
  have nl: "count_left (cell_at cs 0 14472) 20000 8 0 = Some (0 + of_nat 3615)"
    by (rule count_left_run [of 3615 "cell_at cs 0 14472" 8 _ 20000 0, OF rdf rdm]) simp_all
  have rdm': "cell_at cs 0 14472 14468 = Some \<lparr>col_r = 10, col_g = 20, col_b = 30, col_a = 255\<rparr>"
    using rdm by simp
  have nr: "count_right (cell_at cs 0 14472) 20000 14468 0 = Some 0"
    by (rule count_right_stop [of 20000 "cell_at cs 0 14472" 14468, OF _ rdm']) simp_all
  show "payload (Encode example_env example_gui Font wide_coll) 0 \<noteq> None"
    by (simp add: p)
  show "cells (lines (the (payload (Encode example_env example_gui Font wide_coll) 0)) ! 0) =
     replicate 3615 Colour_zero @
     [\<lparr>col_r = 10, col_g = 20, col_b = 30, col_a = 255\<rparr>] @ replicate 16384 Colour_zero"
    by (simp add: p l0 l_def cells_pack_line c cs_def)
  show "nb_left (lines (the (payload (Encode example_env example_gui Font wide_coll) 0)) ! 0) = Some 3615"
    using nl by (simp add: p l0 l_def nb_left_pack_line c)
  show "nb_right (lines (the (payload (Encode example_env example_gui Font wide_coll) 0)) ! 0) = Some 0"
    using nr by (simp add: p l0 l_def nb_right_pack_line c)
qed

lemma wide_tail:
  "transp_run (rev (replicate 3615 Colour_zero @
     [\<lparr>col_r = 10, col_g = 20, col_b = 30, col_a = 255\<rparr>] @ replicate 16384 Colour_zero)) = 16384"
  "(replicate 3615 Colour_zero @
     [\<lparr>col_r = 10, col_g = 20, col_b = 30, col_a = 255\<rparr>] @ replicate 16384 Colour_zero) ! 19999
   = Colour_zero"
proof -
  have "takeWhile (\<lambda>c. col_a c = 0)
          (replicate 16384 Colour_zero @ \<lparr>col_r = 10, col_g = 20, col_b = 30, col_a = 255\<rparr> #
             replicate 3615 Colour_zero) = replicate 16384 Colour_zero"
    by (subst takeWhile_append2) (simp_all add: Colour_zero_def)
  then show "transp_run (rev (replicate 3615 Colour_zero @
     [\<lparr>col_r = 10, col_g = 20, col_b = 30, col_a = 255\<rparr>] @ replicate 16384 Colour_zero)) = 16384"
    by (simp add: transp_run_def)
  show "(replicate 3615 Colour_zero @
     [\<lparr>col_r = 10, col_g = 20, col_b = 30, col_a = 255\<rparr>] @ replicate 16384 Colour_zero) ! 19999
   = Colour_zero"
    by (simp add: nth_append)
qed

lemma tall_infos:
  "infos (Encode example_env example_gui Font tall_coll) 0 =
     \<lparr>sprite_width = 20000, sprite_offset = 0, sprite_line_size = 14472, mv_offset = 86832\<rparr>"
proof -
  have "(0::nat) \<in> set (encoded_levels example_env example_gui Font)"
    by (simp add: encoded_levels_Font example_env_def)
  from infos_Encode_in [OF this, of tall_coll] show ?thesis
    by (simp add: zoom_range_def planned_info_def planned_size_def planned_rgba_size_def
        stored_line_size_def tall_coll_def tall_glyph_def example_env_def)
qed

lemma tall_payload_size:
  "payload_size (Encode example_env example_gui Font tall_coll) = 326832"
  by (simp add: payload_size_Encode encoded_levels_Font example_env_def planned_size_def
      planned_level_size_def planned_rgba_size_def stored_line_size_def tall_coll_def tall_glyph_def)

lemma tall_line:
  "payload (Encode example_env example_gui Font tall_coll) 0 \<noteq> None"
  "cells (lines (the (payload (Encode example_env example_gui Font tall_coll) 0)) ! 0) =
     replicate 3615 Colour_zero @
     [\<lparr>col_r = 10, col_g = 20, col_b = 30, col_a = 255\<rparr>] @ replicate 16384 Colour_zero"
  "nb_left (lines (the (payload (Encode example_env example_gui Font tall_coll) 0)) ! 0) = Some 3615"
  "nb_right (lines (the (payload (Encode example_env example_gui Font tall_coll) 0)) ! 0) = Some 0"
proof -
  define I where "I = \<lparr>sprite_width = 20000, sprite_offset = 0, sprite_line_size = 14472,
      mv_offset = 86832 :: uint\<rparr>"
  define cs where "cs = replicate 3615 Colour_zero @
     [\<lparr>col_r = 10, col_g = 20, col_b = 30, col_a = 255\<rparr>] @ replicate 16384 Colour_zero"
  define l where "l = pack_line example_env 20000 14472 0 86832 (data wide_glyph)"
  have z: "(0::nat) \<in> set (encoded_levels example_env example_gui Font)"
    by (simp add: encoded_levels_Font example_env_def)
  have p: "payload (Encode example_env example_gui Font tall_coll) 0 =
             Some (pack_level example_env I tall_glyph)"
    using payload_Encode_in [OF z, of tall_coll] unfolding tall_infos
    by (simp add: tall_coll_def I_def)
  have sl: "src_line 20000 (data tall_glyph) 0 = data wide_glyph"
    by (simp add: src_line_def tall_glyph_def wide_glyph_def)
  have wh: "unat (width tall_glyph) = 20000" "unat (height tall_glyph) = 6"
    by (simp_all add: tall_glyph_def)
  have "lines (pack_level example_env I tall_glyph) ! 0 =
          pack_line example_env 20000 14472 (0 + 0 * 14472) (86832 + 0 * (2 * 20000))
            (src_line 20000 (data tall_glyph) 0)"
    unfolding lines_pack_level wh
    by (simp add: pack_lines_nth I_def)
  then have l0: "lines (pack_level example_env I tall_glyph) ! 0 = l"
    by (simp add: sl l_def)
  have c: "map (pixel_colour example_env) (data wide_glyph) = cs"
    by (simp add: wide_glyph_def pixel_colour_def encode_pixel_def cs_def Colour_zero_def)
  have lc: "length cs = 20000" by (simp add: cs_def)
  have front: "cs ! j = Colour_zero" if "j < 3615" for j
    using that by (simp add: cs_def nth_append)
  have mid: "cs ! 3615 = \<lparr>col_r = 10, col_g = 20, col_b = 30, col_a = 255\<rparr>"
    by (simp add: cs_def nth_append)
  have rd: "cell_at cs 0 86832 (int 0 + 8 + 4 * int j) = Some (cs ! j)" if "j \<le> 3615" for j
    by (rule cell_at_cell) (use that lc in simp_all)
  have rdf: "\<exists>c. cell_at cs 0 86832 (8 + 4 * int j) = Some c \<and> col_a c = 0" if "j < 3615" for j
    using rd [of j] front [OF that] that by (simp add: Colour_zero_def)
  have rdm: "cell_at cs 0 86832 (8 + 4 * int 3615) = Some \<lparr>col_r = 10, col_g = 20, col_b = 30, col_a = 255\<rparr>"
    using rd [of 3615] mid by simp
  have nl: "count_left (cell_at cs 0 86832) 20000 8 0 = Some (0 + of_nat 3615)"
    by (rule count_left_run [of 3615 "cell_at cs 0 86832" 8 _ 20000 0, OF rdf rdm]) simp_all
  have rdm': "cell_at cs 0 86832 14468 = Some \<lparr>col_r = 10, col_g = 20, col_b = 30, col_a = 255\<rparr>"
    using rdm by simp
  have nr: "count_right (cell_at cs 0 86832) 20000 14468 0 = Some 0"
    by (rule count_right_stop [of 20000 "cell_at cs 0 86832" 14468, OF _ rdm']) simp_all
  show "payload (Encode example_env example_gui Font tall_coll) 0 \<noteq> None"
    by (simp add: p)
  show "cells (lines (the (payload (Encode example_env example_gui Font tall_coll) 0)) ! 0) =
     replicate 3615 Colour_zero @
     [\<lparr>col_r = 10, col_g = 20, col_b = 30, col_a = 255\<rparr>] @ replicate 16384 Colour_zero"
    by (simp add: p l0 l_def cells_pack_line c cs_def)
  show "nb_left (lines (the (payload (Encode example_env example_gui Font tall_coll) 0)) ! 0) = Some 3615"
    using nl by (simp add: p l0 l_def nb_left_pack_line c)
  show "nb_right (lines (the (payload (Encode example_env example_gui Font tall_coll) 0)) ! 0) = Some 0"
    using nr by (simp add: p l0 l_def nb_right_pack_line c)
qed

lemma dom_payload_Encode:
  "dom (payload (Encode e gui t sprite)) = set (encoded_levels e gui t)"
proof (rule set_eqI)
  fix z
  show "z \<in> dom (payload (Encode e gui t sprite)) \<longleftrightarrow> z \<in> set (encoded_levels e gui t)"
    using payload_Encode_in [of z e gui t sprite] payload_Encode_notin [of z e gui t sprite]
    by (cases "z \<in> set (encoded_levels e gui t)") (simp_all add: dom_def)
qed

section \<open>The buffer holds the packed levels\<close>

lemma store_bytes_apply:
  "store_bytes p bs mem a = (if p \<le> a \<and> a < p + length bs then bs ! (a - p) else mem a)"
proof (induction bs arbitrary: p mem)
  case Nil
  show ?case by auto
next
  case (Cons b bs)
  have IH: "store_bytes (Suc p) bs (mem(p := b)) a =
      (if Suc p \<le> a \<and> a < Suc p + length bs then bs ! (a - Suc p) else (mem(p := b)) a)"
    by (rule Cons.IH)
  have nth: "(b # bs) ! (a - p) = bs ! (a - Suc p)" if "Suc p \<le> a"
    using that by (simp add: nth_Cons')
  show ?case
    unfolding store_bytes.simps IH using nth by (cases "a = p") auto
qed



lemma length_bytes_uint32: "length (bytes_uint32 n) = 4"
  by (simp add: bytes_uint32_def)






lemma length_bytes_Colour: "length (bytes_Colour c) = 4"
  by (simp add: bytes_Colour_def)

lemma length_bytes_MapValue: "length (bytes_MapValue v) = 2"
  by (simp add: bytes_MapValue_def)





















lemma example_fits: "fits_buffer example_env example_gui Font example_coll"
  by (simp add: fits_buffer_def encoded_levels_Font bytes_of_levels_def level_bytes_def
      level_rgba_bytes_def level_mv_bytes_def example_coll_def example_sprite_def)



section \<open>The packed line and the header against the buffer, for every layout\<close>

lemma write_pixels_acc:
  "fst (write_pixels e f src p q mem) = acc_join e f src"
  "fst (snd (write_pixels e f src p q mem)) = q + 2 * length src"
proof -
  have "fst (write_pixels e f src p q mem) = acc_join e f src \<and>
        fst (snd (write_pixels e f src p q mem)) = q + 2 * length src"
  proof (induction src arbitrary: f p q mem)
    case Nil
    show ?case by (simp add: acc_join_Nil)
  next
    case (Cons s src)
    have acc: "acc_join e (acc_join e f [s]) src = acc_join e f (s # src)"
      using acc_join_append [of e f "[s]" src] by simp
    show ?case
      by (simp add: encode_pixel_eq Cons.IH acc sizeof_MapValue_def)
  qed
  then show "fst (write_pixels e f src p q mem) = acc_join e f src"
    and "fst (snd (write_pixels e f src p q mem)) = q + 2 * length src"
    by simp_all
qed

lemma write_pixels_frame:
  assumes "\<not> (p \<le> a \<and> a < p + 4 * length src)" and "\<not> (q \<le> a \<and> a < q + 2 * length src)"
  shows "snd (snd (write_pixels e f src p q mem)) a = mem a"
  using assms
proof (induction src arbitrary: f p q mem)
  case Nil
  show ?case by simp
next
  case (Cons s src)
  have a: "\<not> (p + 4 \<le> a \<and> a < p + 4 + 4 * length src)"
    and b: "\<not> (q + 2 \<le> a \<and> a < q + 2 + 2 * length src)"
    using Cons.prems by auto
  have c: "\<not> (p \<le> a \<and> a < p + 4)" and d: "\<not> (q \<le> a \<and> a < q + 2)"
    using Cons.prems by auto
  have step: "write_pixels e f (s # src) p q mem =
      write_pixels e (acc_join e f [s]) src (p + 4) (q + 2)
        (store_bytes q (bytes_MapValue (pixel_mv e s)) (store_bytes p (bytes_Colour (pixel_colour e s)) mem))"
    by (simp add: encode_pixel_eq sizeof_Colour_def sizeof_MapValue_def)
  show ?case
    unfolding step Cons.IH [OF a b]
    using c d by (auto simp add: store_bytes_apply length_bytes_Colour length_bytes_MapValue)
qed

lemma write_pixels_cell:
  assumes "i < length src"
      and "q + 2 * length src \<le> p + 4 * i \<or> p + 4 * i + 4 \<le> q + 2 * i"
      and "k < 4"
  shows "snd (snd (write_pixels e f src p q mem)) (p + 4 * i + k) =
           bytes_Colour (pixel_colour e (src ! i)) ! k"
  using assms(1,2)
proof (induction src arbitrary: f p q mem i)
  case Nil
  then show ?case by simp
next
  case (Cons s src)
  have step: "write_pixels e f (s # src) p q mem =
      write_pixels e (acc_join e f [s]) src (p + 4) (q + 2)
        (store_bytes q (bytes_MapValue (pixel_mv e s)) (store_bytes p (bytes_Colour (pixel_colour e s)) mem))"
    by (simp add: encode_pixel_eq sizeof_Colour_def sizeof_MapValue_def)
  show ?case
  proof (cases i)
    case 0
    have a: "\<not> (p + 4 \<le> p + k \<and> p + k < p + 4 + 4 * length src)"
      using assms(3) by simp
    have b: "\<not> (q + 2 \<le> p + k \<and> p + k < q + 2 + 2 * length src)"
      using Cons.prems(2) assms(3) 0 by auto
    have c: "\<not> (q \<le> p + k \<and> p + k < q + 2)"
      using Cons.prems(2) assms(3) 0 by auto
    show ?thesis
      unfolding step 0 mult_0_right add_0_right nth_Cons_0 write_pixels_frame [OF a b]
      using c assms(3)
      by (auto simp add: store_bytes_apply length_bytes_Colour length_bytes_MapValue)
  next
    case (Suc j)
    with Cons.prems have j: "j < length src"
      and d: "q + 2 + 2 * length src \<le> p + 4 + 4 * j \<or> p + 4 + 4 * j + 4 \<le> q + 2 + 2 * j"
      by auto
    have e: "p + 4 * Suc j + k = p + 4 + 4 * j + k" by simp
    show ?thesis
      unfolding step Suc e Cons.IH [OF j d] by simp
  qed
qed

lemma cell_at_SomeD:
  assumes "cell_at cs L M p = Some c"
  shows "\<exists>i. i < length cs \<and> p = int (L + 8 + 4 * i) \<and> c = cs ! i \<and>
             (M + 2 * length cs \<le> L + 8 + 4 * i \<or> L + 8 + 4 * i + 4 \<le> M + 2 * i)"
proof -
  define off where "off = p - (int L + 8)"
  define i where "i = nat (off div 4)"
  from assms have c: "0 \<le> off" "off mod 4 = 0" "i < length cs"
    "int M + 2 * int (length cs) \<le> p \<or> p + 4 \<le> int M + 2 * int i" "c = cs ! i"
    by (auto simp add: cell_at_def Let_def off_def i_def split: if_splits)
  from c(1,2) have "off = 4 * int i" by (simp add: i_def) presburger
  then have p: "p = int (L + 8 + 4 * i)" by (simp add: off_def)
  from c(4) p have "M + 2 * length cs \<le> L + 8 + 4 * i \<or> L + 8 + 4 * i + 4 \<le> M + 2 * i"
    by auto
  with c(3,5) p show ?thesis by blast
qed

lemma count_left_sound:
  assumes "\<And>p c. rd p = Some c \<Longrightarrow> 0 \<le> p \<and> mem (nat p + 3) = col_a c"
      and "count_left rd x (int a) nb = Some k"
  shows "scan_left mem x a nb = k"
  using assms(2)
proof (induction x arbitrary: a nb)
  case 0
  then show ?case by simp
next
  case (Suc x)
  from Suc.prems obtain c where c: "rd (int a) = Some c"
    by (auto split: option.splits)
  from assms(1) [OF c] have m: "mem (a + 3) = col_a c" by simp
  show ?case
  proof (cases "col_a c = 0")
    case True
    with Suc.prems c have "count_left rd x (int (a + 4)) (nb + 1) = Some k"
      by (simp add: add.commute)
    from Suc.IH [OF this] True m show ?thesis
      by (simp add: alpha_offset_def sizeof_Colour_def)
  next
    case False
    with Suc.prems c m show ?thesis
      by (simp add: alpha_offset_def)
  qed
qed

lemma count_right_sound:
  assumes "\<And>p c. rd p = Some c \<Longrightarrow> 0 \<le> p \<and> mem (nat p + 3) = col_a c"
      and "count_right rd x p nb = Some k"
  shows "scan_right mem x p nb = Some k"
  using assms(2)
proof (induction x arbitrary: p nb)
  case 0
  then show ?case by simp
next
  case (Suc x)
  from Suc.prems obtain c where c: "rd p = Some c"
    by (auto split: option.splits)
  from assms(1) [OF c] have p: "0 \<le> p" and m: "mem (nat p + 3) = col_a c" by simp_all
  from p have n: "nat (p + 3) = nat p + 3" by simp
  show ?case
  proof (cases "col_a c = 0")
    case True
    with Suc.prems c have "count_right rd x (p - 4) (nb + 1) = Some k"
      by simp
    from Suc.IH [OF this] True m p show ?thesis
      by (simp add: alpha_offset_def sizeof_Colour_def n)
  next
    case False
    with Suc.prems c m p show ?thesis
      by (simp add: alpha_offset_def n)
  qed
qed

text \<open>
  The packed line against the buffer, for every layout: whenever the packed line gives
  both counts, the line loop on the buffer finds the same counts, whatever the memory
  held, and stores them into the two slots after the pixel stores.
\<close>

lemma write_line_sound:
  assumes w: "w \<le> length src"
      and nl: "nb_left (pack_line e w S line q (take w src)) = Some nl"
      and nr: "nb_right (pack_line e w S line q (take w src)) = Some nr"
  shows "write_line e w S f src line q mem =
           Some (acc_join e f (take w src), q + 2 * w,
                 store_bytes (line + 4) (bytes_uint32 nr)
                   (store_bytes line (bytes_uint32 nl)
                      (snd (snd (write_pixels e f (take w src) (line + 8) q mem)))))"
proof -
  define px where "px = take w src"
  define cs where "cs = map (pixel_colour e) px"
  define mem1 where "mem1 = snd (snd (write_pixels e f px (line + 8) q mem))"
  define mem2 where "mem2 = store_bytes line (bytes_uint32 nl) mem1"
  have len: "length px = w" "length cs = w"
    using w by (simp_all add: px_def cs_def)
  have wp: "write_pixels e f px (line + 8) q mem = (acc_join e f px, q + 2 * w, mem1)"
    using write_pixels_acc [of e f px "line + 8" q mem]
    by (simp add: mem1_def len prod_eq_iff)
  have rd1: "0 \<le> p \<and> mem1 (nat p + 3) = col_a c" if "cell_at cs line q p = Some c" for p c
  proof -
    from cell_at_SomeD [OF that] obtain i where i: "i < length cs" "p = int (line + 8 + 4 * i)"
      "c = cs ! i" "q + 2 * length cs \<le> line + 8 + 4 * i \<or> line + 8 + 4 * i + 4 \<le> q + 2 * i"
      by blast
    have "mem1 (line + 8 + 4 * i + 3) = bytes_Colour (pixel_colour e (px ! i)) ! 3"
      unfolding mem1_def
      by (rule write_pixels_cell) (use i len in simp_all)
    moreover have "nat p + 3 = line + 8 + 4 * i + 3" using i(2) by simp
    ultimately show ?thesis
      using i len by (simp add: bytes_Colour_def cs_def)
  qed
  have rd2: "0 \<le> p \<and> mem2 (nat p + 3) = col_a c" if "cell_at cs line q p = Some c" for p c
  proof -
    from cell_at_SomeD [OF that] obtain i where "p = int (line + 8 + 4 * i)" by blast
    then have "nat p = line + 8 + 4 * i" by simp
    then have "mem2 (nat p + 3) = mem1 (nat p + 3)"
      by (simp add: mem2_def store_bytes_apply length_bytes_uint32)
    with rd1 [OF that] show ?thesis by simp
  qed
  have cl: "count_left (cell_at cs line q) w (int (line + 8)) 0 = Some nl"
    using nl by (simp add: nb_left_pack_line px_def cs_def)
  have cr: "count_right (cell_at cs line q) w (int line + int S - 4) 0 = Some nr"
    using nr by (simp add: nb_right_pack_line px_def cs_def)
  have sl: "scan_left mem1 w (line + 8) 0 = nl"
    by (rule count_left_sound [OF rd1 cl])
  have sr: "scan_right (store_bytes line (bytes_uint32 nl) mem1) w (int line + int S - 4) 0 = Some nr"
    using count_right_sound [OF rd2 cr] by (simp add: mem2_def)
  show ?thesis
    unfolding write_line_def px_def [symmetric] mem1_def [symmetric]
    by (simp add: wp META_LENGTH_def sizeof_Colour_def Let_def sl sr)
qed

lemma write_line_acc:
  assumes "write_line e w S f src line q mem = Some (f', q', mem')"
  shows "f' = acc_join e f (take w src)"
  using assms write_pixels_acc(1) [of e f "take w src" "line + META_LENGTH * sizeof_Colour" q mem]
  by (auto simp add: write_line_def Let_def split: prod.splits option.splits)

lemma write_lines_acc:
  assumes "write_lines e w S y f src line q mem = Some (f', mem')"
  shows "f' = acc_join e f (take (w * y) src)"
  using assms
proof (induction y arbitrary: f src line q mem)
  case 0
  then show ?case by (simp add: acc_join_Nil)
next
  case (Suc y)
  from Suc.prems obtain f1 q1 mem1 where
    l: "write_line e w S f src line q mem = Some (f1, q1, mem1)"
    and r: "write_lines e w S y f1 (drop w src) (line + S) q1 mem1 = Some (f', mem')"
    by (auto split: option.splits)
  have t: "take w src @ take (w * y) (drop w src) = take (w * Suc y) src"
    by (simp add: take_add)
  show ?case
    unfolding Suc.IH [OF r] write_line_acc [OF l] acc_join_append t ..
qed

lemma write_levels_acc:
  assumes "write_levels e sp tbl zs f mem = Some (f', mem')"
  shows "f' = acc_join e f (concat (map (\<lambda>z. level_pixels (sp z)) zs))"
  using assms
proof (induction zs arbitrary: f mem)
  case Nil
  then show ?case by (simp add: acc_join_Nil)
next
  case (Cons z zs)
  from Cons.prems obtain f1 mem1 where
    l: "write_level e f (sp z) (tbl z) mem = Some (f1, mem1)"
    and r: "write_levels e sp tbl zs f1 mem1 = Some (f', mem')"
    by (auto split: option.splits)
  have "f1 = acc_join e f (level_pixels (sp z))"
    using write_lines_acc [OF l [unfolded write_level_def]] by (simp add: level_pixels_def)
  then show ?case
    unfolding Cons.IH [OF r] by (simp add: acc_join_append)
qed

text \<open>
  Whenever Encode on the buffer returns, whatever the layout and the memory, its header
  is the header of Encode.
\<close>

lemma Encode_buffer_header:
  assumes "Encode_buffer e gui t sprite mem = Some (hdr, mem')"
  shows "hdr = SpriteHeader.truncate (Encode e gui t sprite)"
proof -
  define zs where "zs = zoom_levels (zoom_range e gui t)"
  define sd where "sd = plan_levels (at_zoom sprite) zs (\<lambda>z. SpriteInfo_zero) 0"
  from assms obtain f where
    w: "write_levels e (at_zoom sprite) (fst sd) zs acc_init mem = Some (f, mem')"
    and h: "hdr = \<lparr>dst_height = height (Root sprite), dst_width = width (Root sprite),
                    dst_x_offs = x_offs (Root sprite), dst_y_offs = y_offs (Root sprite),
                    flags = store_flags f, infos = fst sd, payload_size = snd sd\<rparr>"
    by (auto simp add: Encode_buffer_def Let_def zs_def sd_def split: option.splits)
  show ?thesis
    unfolding h write_levels_acc [OF w]
    by (simp add: Encode_def Let_def encode_levels_eq SpriteHeader.truncate_def zs_def sd_def)
qed

section \<open>Lines of transparent pixels on the buffer\<close>










section \<open>A run that reads memory it has not written\<close>





section \<open>The claims\<close>



text \<open>
  C2, as the code has it. After Encode, \<^verbatim>\<open>Translucent\<close> is set exactly when some
  packed pixel has an alpha strictly between 0 and 255; \<^verbatim>\<open>NoRemap\<close> is set exactly
  when no packed pixel with nonzero alpha has a nonzero recolour index; \<^verbatim>\<open>NoAnim\<close> is
  set exactly when no packed pixel with nonzero alpha has a nonzero recolour index at or
  above \<^verbatim>\<open>PALETTE_ANIM_START\<close>. The flags are a function of the packed pixels alone.
\<close>

theorem flags_from_visible_pixels:
  "(Translucent \<in> flags (Encode e gui t sprite) \<longleftrightarrow>
      (\<exists>p \<in> set (packed_pixels e gui t sprite). 0 < unat (px_a p) \<and> unat (px_a p) < 255)) \<and>
   (NoRemap \<in> flags (Encode e gui t sprite) \<longleftrightarrow>
      \<not> (\<exists>p \<in> set (packed_pixels e gui t sprite). px_a p \<noteq> 0 \<and> px_m p \<noteq> 0)) \<and>
   (NoAnim \<in> flags (Encode e gui t sprite) \<longleftrightarrow>
      \<not> (\<exists>p \<in> set (packed_pixels e gui t sprite).
            px_a p \<noteq> 0 \<and> px_m p \<noteq> 0 \<and> PALETTE_ANIM_START e \<le> unat (px_m p)))"
  by (simp add: flags_Encode store_flags_def acc_join_def acc_init_def
      px_translucent_def px_remap_def px_anim_def a_between)

theorem flags_from_visible_pixels_witness:
  "Translucent \<in> flags (Encode example_env example_gui Font example_coll) \<and>
   NoRemap \<notin> flags (Encode example_env example_gui Font example_coll) \<and>
   NoAnim \<notin> flags (Encode example_env example_gui Font example_coll) \<and>
   NoRemap \<in> flags (Encode example_env example_gui Font hidden_index_coll) \<and>
   NoAnim \<in> flags (Encode example_env example_gui Font hidden_index_coll)"
  using flags_from_visible_pixels [of example_env example_gui Font example_coll]
    flags_from_visible_pixels [of example_env example_gui Font hidden_index_coll]
  unfolding example_pixels hidden_index_pixels
  by (simp add: example_sprite_def example_env_def)

text \<open>
  C2, as stated, counts every pixel with a nonzero recolour index. It fails on a font
  sprite whose only pixel is transparent and carries index 240, which is nonzero and at
  or above \<^verbatim>\<open>PALETTE_ANIM_START\<close>: \<^verbatim>\<open>NoRemap\<close> and \<^verbatim>\<open>NoAnim\<close> are both set.
\<close>

theorem flags_from_all_pixels_counterexample:
  "packed_pixels example_env example_gui Font hidden_index_coll =
     [\<lparr>px_r = 0, px_g = 0, px_b = 0, px_a = 0, px_m = 240\<rparr>] \<and>
   px_m (packed_pixels example_env example_gui Font hidden_index_coll ! 0) \<noteq> 0 \<and>
   PALETTE_ANIM_START example_env \<le>
     unat (px_m (packed_pixels example_env example_gui Font hidden_index_coll ! 0)) \<and>
   NoRemap \<in> flags (Encode example_env example_gui Font hidden_index_coll) \<and>
   NoAnim \<in> flags (Encode example_env example_gui Font hidden_index_coll)"
  unfolding flags_Encode hidden_index_pixels
  by (simp add: store_flags_def acc_join_def acc_init_def
      px_translucent_def px_remap_def px_anim_def example_env_def)

text \<open>
  C3, as the code has it. For a run within its buffers (the byte counts of the encoded
  levels sum to less than \<open>2 ^ 32\<close>, every encoded level has a line size
  \<open>8 + 4 * width\<close> below \<open>2 ^ 16\<close> and a pixel buffer of width times height pixels):
  in every packed line of every encoded zoom level, the left count slot holds the length
  of the longest prefix of cells with alpha 0 and the right count slot holds the length
  of the longest suffix of such cells, each counted on its own: the first left-count
  cells have alpha 0 and the cell after them, if there is one, has nonzero alpha;
  likewise from the right edge; for a line of transparent cells only, both counts are the
  width.
\<close>

theorem run_counts:
  assumes fits: "fits_buffer e gui t sprite"
      and z: "z \<in> set (encoded_levels e gui t)"
      and s: "at_zoom sprite z = s"
      and y: "y < unat (height s)"
  shows "\<exists>lvl l nl nr. payload (Encode e gui t sprite) z = Some lvl \<and> l = lines lvl ! y \<and>
           length (cells l) = unat (width s) \<and>
           nb_left l = Some nl \<and> nb_right l = Some nr \<and>
           unat nl = length (takeWhile (\<lambda>c. col_a c = 0) (cells l)) \<and>
           unat nr = length (takeWhile (\<lambda>c. col_a c = 0) (rev (cells l))) \<and>
           (\<forall>i < unat nl. col_a (cells l ! i) = 0) \<and>
           (unat nl < unat (width s) \<longrightarrow> col_a (cells l ! unat nl) \<noteq> 0) \<and>
           (\<forall>i < unat nr. col_a (cells l ! (unat (width s) - 1 - i)) = 0) \<and>
           (unat nr < unat (width s) \<longrightarrow>
              col_a (cells l ! (unat (width s) - 1 - unat nr)) \<noteq> 0) \<and>
           ((\<forall>c \<in> set (cells l). col_a c = 0) \<longrightarrow>
              unat nl = unat (width s) \<and> unat nr = unat (width s))"
proof -
  define I where "I = infos (Encode e gui t sprite) z"
  define l where "l = lines (pack_level e I s) ! y"
  define cs where "cs = cells l"
  define nl :: uint where "nl = of_nat (transp_run cs)"
  define nr :: uint where "nr = of_nat (transp_run (rev cs))"
  have pl: "payload (Encode e gui t sprite) z = Some (pack_level e I s)"
    using payload_Encode_in [OF z] s by (simp add: I_def)
  from fits have lt: "bytes_of_levels (at_zoom sprite) (encoded_levels e gui t) < 2 ^ 32"
    and wd: "\<forall>z \<in> set (encoded_levels e gui t). 8 + 4 * unat (width (at_zoom sprite z)) < 2 ^ 16"
    and wfa: "\<forall>z \<in> set (encoded_levels e gui t).
        unat (width (at_zoom sprite z)) * unat (height (at_zoom sprite z)) \<le> length (data (at_zoom sprite z))"
    by (simp_all add: fits_buffer_def)
  from wfa z s have wf: "unat (width s) * unat (height s) \<le> length (data s)"
    by auto
  have ls: "unat (sprite_line_size I) = 8 + 4 * unat (width s)"
    using planned_layout(1) [OF lt wd z] s by (simp add: I_def)
  have mv: "unat (mv_offset I) = unat (sprite_offset I) + level_rgba_bytes s"
    using planned_layout(2,3) [OF lt wd z] s by (simp add: I_def)
  have len: "length cs = unat (width s)"
    and nbl: "nb_left l = Some nl" and nbr: "nb_right l = Some nr"
    using pack_level_line(2,3,4) [OF wf y ls mv, of e]
    by (simp_all add: l_def cs_def nl_def nr_def)
  have unl: "unat nl = transp_run cs"
    unfolding nl_def by (rule unat_transp_run [OF len])
  have unr: "unat nr = transp_run (rev cs)"
    unfolding nr_def by (rule unat_transp_run) (simp add: len)
  note L = transp_run_facts [of cs, folded unl]
  note R = transp_run_facts [of "rev cs", folded unr]
  have r1: "\<forall>i < unat nr. col_a (cs ! (unat (width s) - 1 - i)) = 0"
  proof (intro allI impI)
    fix i assume i: "i < unat nr"
    with R(1) have "i < length cs" by simp
    then have "rev cs ! i = cs ! (length cs - Suc i)" by (rule rev_nth)
    with R(2) [rule_format, OF i] show "col_a (cs ! (unat (width s) - 1 - i)) = 0"
      by (simp add: len)
  qed
  have r2: "unat nr < unat (width s) \<longrightarrow> col_a (cs ! (unat (width s) - 1 - unat nr)) \<noteq> 0"
  proof
    assume k: "unat nr < unat (width s)"
    then have "rev cs ! unat nr = cs ! (length cs - Suc (unat nr))"
      by (simp add: rev_nth len)
    with R(3) k show "col_a (cs ! (unat (width s) - 1 - unat nr)) \<noteq> 0"
      by (simp add: len)
  qed
  have all: "(\<forall>c \<in> set cs. col_a c = 0) \<longrightarrow> unat nl = unat (width s) \<and> unat nr = unat (width s)"
    using L(4) R(4) by (simp add: len)
  have tl: "unat nl = length (takeWhile (\<lambda>c. col_a c = 0) cs)"
    and tr: "unat nr = length (takeWhile (\<lambda>c. col_a c = 0) (rev cs))"
    by (simp_all add: unl unr transp_run_def)
  show ?thesis
    apply (rule exI [of _ "pack_level e I s"])
    apply (rule exI [of _ l])
    apply (rule exI [of _ nl])
    apply (rule exI [of _ nr])
    using pl len nbl nbr tl tr L(2) L(3) r1 r2 all
    by (simp add: l_def [symmetric] cs_def [symmetric])
qed

theorem run_counts_witness:
  "fits_buffer example_env example_gui Font example_coll \<and>
   (\<exists>lvl l. payload (Encode example_env example_gui Font example_coll) 0 = Some lvl \<and>
      l = lines lvl ! 0 \<and> nb_left l = Some 1 \<and> nb_right l = Some 0 \<and>
      col_a (cells l ! 0) = 0 \<and> col_a (cells l ! 1) \<noteq> 0) \<and>
   (\<exists>lvl l. payload (Encode example_env example_gui Font example_coll) 0 = Some lvl \<and>
      l = lines lvl ! 2 \<and> nb_left l = Some 2 \<and> nb_right l = Some 2)"
proof -
  have z: "(0::nat) \<in> set (encoded_levels example_env example_gui Font)"
    by (simp add: encoded_levels_Font example_env_def)
  have s: "at_zoom example_coll 0 = example_sprite"
    by (simp add: example_coll_def)
  have y: "0 < unat (height example_sprite)" "2 < unat (height example_sprite)"
    by (simp_all add: example_sprite_def)
  show ?thesis
    using run_counts [OF example_fits z s y(1)] run_counts [OF example_fits z s y(2)] example_fits
    by (simp add: example_level example_lines Colour_zero_def)
qed

text \<open>
  C3, as stated, has no bound on the width. For a glyph of six lines of 20000 pixels the
  line size \<open>80008\<close> is stored as 14472, and the count from the right starts at the
  cell in front of byte 14472 of the line, cell 3615, not at the last cell. The first
  line has 3615 transparent pixels, an opaque one and 16384 transparent ones: its last
  16384 cells have alpha 0, yet its right count slot holds 0. The same line alone, as a
  glyph of one line, gets the same counts.
\<close>

theorem right_count_counterexample:
  "length (data tall_glyph) = unat (width tall_glyph) * unat (height tall_glyph) \<and>
   unat (width tall_glyph) = 20000 \<and>
   unat (sprite_line_size (infos (Encode example_env example_gui Font tall_coll) 0)) = 14472 \<and>
   unat (payload_size (Encode example_env example_gui Font tall_coll)) = 326832 \<and>
   payload (Encode example_env example_gui Font tall_coll) 0 \<noteq> None \<and>
   length (cells (lines (the (payload (Encode example_env example_gui Font tall_coll) 0)) ! 0)) = 20000 \<and>
   col_a (cells (lines (the (payload (Encode example_env example_gui Font tall_coll) 0)) ! 0) ! 19999) = 0 \<and>
   transp_run (rev (cells (lines (the (payload (Encode example_env example_gui Font tall_coll) 0)) ! 0))) = 16384 \<and>
   nb_left (lines (the (payload (Encode example_env example_gui Font tall_coll) 0)) ! 0) = Some 3615 \<and>
   nb_right (lines (the (payload (Encode example_env example_gui Font tall_coll) 0)) ! 0) = Some 0 \<and>
   length (data wide_glyph) = unat (width wide_glyph) * unat (height wide_glyph) \<and>
   unat (width wide_glyph) = 20000 \<and>
   unat (sprite_line_size (infos (Encode example_env example_gui Font wide_coll) 0)) = 14472 \<and>
   payload (Encode example_env example_gui Font wide_coll) 0 \<noteq> None \<and>
   length (cells (lines (the (payload (Encode example_env example_gui Font wide_coll) 0)) ! 0)) = 20000 \<and>
   col_a (cells (lines (the (payload (Encode example_env example_gui Font wide_coll) 0)) ! 0) ! 19999) = 0 \<and>
   transp_run (rev (cells (lines (the (payload (Encode example_env example_gui Font wide_coll) 0)) ! 0))) = 16384 \<and>
   nb_left (lines (the (payload (Encode example_env example_gui Font wide_coll) 0)) ! 0) = Some 3615 \<and>
   nb_right (lines (the (payload (Encode example_env example_gui Font wide_coll) 0)) ! 0) = Some 0"
  unfolding wide_line(2,3,4) tall_line(2,3,4) wide_tail wide_infos tall_infos tall_payload_size
  using wide_line(1) tall_line(1)
  by (simp add: wide_glyph_def tall_glyph_def Colour_zero_def)



text \<open>
  C5, as the code has it. When the byte counts of all encoded levels sum to less than
  \<open>2 ^ 32\<close>, the range of the \<^verbatim>\<open>uint\<close> running offset, and the line size
  \<open>8 + 4 * width\<close> of every encoded level is below \<open>2 ^ 16\<close>, the range of the field
  that stores it, every encoded level is laid out as the specification words it.
\<close>

theorem layout_plan:
  assumes fits: "bytes_of_levels (at_zoom sprite) (encoded_levels e gui t) < 2 ^ 32"
      and wd: "\<forall>z \<in> set (encoded_levels e gui t). 8 + 4 * unat (width (at_zoom sprite z)) < 2 ^ 16"
      and z: "z \<in> set (encoded_levels e gui t)"
  shows "layout_as_planned e gui t sprite z"
proof -
  define sp where "sp = at_zoom sprite"
  define lo where "lo = fst (zoom_range e gui t)"
  define hi where "hi = Suc (snd (zoom_range e gui t))"
  define T where "T = bytes_of_levels sp [lo..<hi]"
  have zs: "encoded_levels e gui t = [lo..<hi]"
    by (simp add: encoded_levels_upt lo_def hi_def)
  from z have b: "lo \<le> z" "z < hi" by (simp_all add: zs)
  have split: "T = bytes_of_levels sp [lo..<z] + level_bytes (sp z) + bytes_of_levels sp [Suc z..<hi]"
    unfolding T_def upt_split3 [OF b] by (simp add: bytes_of_levels_def)
  note P = planned_layout [OF fits wd z, folded sp_def lo_def]
  have tot: "unat (payload_size (Encode e gui t sprite)) = T"
    using P(4) by (simp add: zs T_def)
  have later: "bytes_of_levels sp [lo..<z] + level_bytes (sp z) \<le>
                 unat (sprite_offset (infos (Encode e gui t sprite) z'))"
    if z': "z' \<in> set (encoded_levels e gui t)" and lt: "z < z'" for z'
  proof -
    have s2: "bytes_of_levels sp [lo..<z'] =
                bytes_of_levels sp [lo..<z] + level_bytes (sp z) + bytes_of_levels sp [Suc z..<z']"
      unfolding upt_split3 [OF b(1) lt] by (simp add: bytes_of_levels_def)
    have "unat (sprite_offset (infos (Encode e gui t sprite) z')) = bytes_of_levels sp [lo..<z']"
      using planned_layout(2) [OF fits wd z'] by (simp add: sp_def lo_def)
    with s2 show ?thesis by simp
  qed
  show ?thesis
    unfolding layout_as_planned_def Let_def sp_def [symmetric] lo_def [symmetric] P tot
    using split later
    by (auto simp add: level_bytes_def level_rgba_bytes_def level_mv_bytes_def zs T_def add.assoc)
qed

theorem layout_plan_witness:
  "bytes_of_levels (at_zoom example_coll) (encoded_levels example_env two_level_gui NotFont) = 120 \<and>
   8 + 4 * unat (width (at_zoom example_coll 0)) = 16 \<and>
   8 + 4 * unat (width (at_zoom example_coll 1)) = 16 \<and>
   layout_as_planned example_env two_level_gui NotFont example_coll 0 \<and>
   layout_as_planned example_env two_level_gui NotFont example_coll 1 \<and>
   infos (Encode example_env two_level_gui NotFont example_coll) 1 =
     \<lparr>sprite_width = 2, sprite_offset = 60, sprite_line_size = 16, mv_offset = 108\<rparr> \<and>
   payload_size (Encode example_env two_level_gui NotFont example_coll) = 120"
proof -
  have b: "level_rgba_bytes example_sprite = 48" "level_bytes example_sprite = 60"
    by (simp_all add: level_bytes_def level_rgba_bytes_def level_mv_bytes_def example_sprite_def)
  have f: "bytes_of_levels (at_zoom example_coll) (encoded_levels example_env two_level_gui NotFont) = 120"
    by (simp add: two_levels bytes_of_levels_def example_coll_def b)
  have w: "8 + 4 * unat (width (at_zoom example_coll z)) = 16" for z
    by (simp add: example_coll_def example_sprite_def)
  have i: "infos (Encode example_env two_level_gui NotFont example_coll) 1 =
     \<lparr>sprite_width = 2, sprite_offset = 60, sprite_line_size = 16, mv_offset = 108\<rparr>"
  proof -
    have "(1::nat) \<in> set (encoded_levels example_env two_level_gui NotFont)"
      by (simp add: two_levels)
    from infos_Encode_in [OF this, of example_coll] show ?thesis
      by (simp add: two_level_range planned_info_def planned_size_def planned_level_size_def
          planned_rgba_size_def stored_line_size_def example_coll_def example_sprite_def)
  qed
  have p: "payload_size (Encode example_env two_level_gui NotFont example_coll) = 120"
    by (simp add: payload_size_Encode two_levels planned_size_def planned_level_size_def
        planned_rgba_size_def stored_line_size_def example_coll_def example_sprite_def)
  have z: "(0::nat) \<in> set (encoded_levels example_env two_level_gui NotFont)"
    "(1::nat) \<in> set (encoded_levels example_env two_level_gui NotFont)"
    by (simp_all add: two_levels)
  have lt: "bytes_of_levels (at_zoom example_coll) (encoded_levels example_env two_level_gui NotFont) < 2 ^ 32"
    unfolding f by simp
  have wd: "\<forall>z \<in> set (encoded_levels example_env two_level_gui NotFont).
      8 + 4 * unat (width (at_zoom example_coll z)) < 2 ^ 16"
    unfolding w by simp
  show ?thesis
    using layout_plan [OF lt wd z(1)] layout_plan [OF lt wd z(2)] f w i p by simp
qed

text \<open>
  C5, as stated, has no bound on the sizes. With two levels of 16000 by 30000 pixels the
  running offset passes \<open>2 ^ 32\<close>: level 1 has its colour region at offset 2880240000
  and 1920240000 bytes long, yet its map-value region at offset 505512704, below the
  colour region; the payload size is 1465512704, not the 5760480000 bytes of the two
  levels. With a glyph of one line of 20000 pixels the line size \<open>80008\<close> passes
  \<open>2 ^ 16\<close>: the stored line size is 14472, the map-value region starts at offset
  14472, inside the 80008 bytes of the line, and the payload size is 54472, not the
  120008 bytes of the level.
\<close>

theorem layout_plan_counterexample:
  "length (data big_sprite) = unat (width big_sprite) * unat (height big_sprite) \<and>
   encoded_levels example_env two_level_gui NotFont = [0, 1] \<and>
   unat (sprite_offset (infos (Encode example_env two_level_gui NotFont big_coll) 1)) = 2880240000 \<and>
   unat (sprite_line_size (infos (Encode example_env two_level_gui NotFont big_coll) 1)) *
     unat (height (at_zoom big_coll 1)) = 1920240000 \<and>
   unat (mv_offset (infos (Encode example_env two_level_gui NotFont big_coll) 1)) = 505512704 \<and>
   unat (payload_size (Encode example_env two_level_gui NotFont big_coll)) = 1465512704 \<and>
   bytes_of_levels (at_zoom big_coll) (encoded_levels example_env two_level_gui NotFont) = 5760480000 \<and>
   \<not> layout_as_planned example_env two_level_gui NotFont big_coll 1 \<and>
   length (data wide_glyph) = unat (width wide_glyph) * unat (height wide_glyph) \<and>
   encoded_levels example_env example_gui Font = [0] \<and>
   8 + 4 * unat (width (at_zoom wide_coll 0)) = 80008 \<and>
   unat (sprite_line_size (infos (Encode example_env example_gui Font wide_coll) 0)) = 14472 \<and>
   unat (mv_offset (infos (Encode example_env example_gui Font wide_coll) 0)) = 14472 \<and>
   unat (payload_size (Encode example_env example_gui Font wide_coll)) = 54472 \<and>
   bytes_of_levels (at_zoom wide_coll) (encoded_levels example_env example_gui Font) = 120008 \<and>
   \<not> layout_as_planned example_env example_gui Font wide_coll 0"
proof -
  have d: "length (data big_sprite) = unat (width big_sprite) * unat (height big_sprite)"
    by (simp add: big_sprite_def)
  have h: "unat (height (at_zoom big_coll 1)) = 30000"
    by (simp add: big_coll_def big_sprite_def)
  have t: "bytes_of_levels (at_zoom big_coll) (encoded_levels example_env two_level_gui NotFont) = 5760480000"
    by (simp add: two_levels bytes_of_levels_def big_coll_def big_level_bytes)
  have p: "unat (payload_size (Encode example_env two_level_gui NotFont big_coll)) = 1465512704"
    by (simp add: payload_size_Encode two_levels planned_size_def planned_level_size_def
        planned_rgba_size_def stored_line_size_def big_coll_def big_sprite_def)
  have n: "\<not> layout_as_planned example_env two_level_gui NotFont big_coll 1"
    unfolding layout_as_planned_def Let_def big_infos h by simp
  have big: "length (data big_sprite) = unat (width big_sprite) * unat (height big_sprite) \<and>
   encoded_levels example_env two_level_gui NotFont = [0, 1] \<and>
   unat (sprite_offset (infos (Encode example_env two_level_gui NotFont big_coll) 1)) = 2880240000 \<and>
   unat (sprite_line_size (infos (Encode example_env two_level_gui NotFont big_coll) 1)) *
     unat (height (at_zoom big_coll 1)) = 1920240000 \<and>
   unat (mv_offset (infos (Encode example_env two_level_gui NotFont big_coll) 1)) = 505512704 \<and>
   unat (payload_size (Encode example_env two_level_gui NotFont big_coll)) = 1465512704 \<and>
   bytes_of_levels (at_zoom big_coll) (encoded_levels example_env two_level_gui NotFont) = 5760480000 \<and>
   \<not> layout_as_planned example_env two_level_gui NotFont big_coll 1"
    unfolding big_infos h using d t p n by (simp add: two_levels)
  have wdt: "length (data wide_glyph) = unat (width wide_glyph) * unat (height wide_glyph)"
    by (simp add: wide_glyph_def)
  have wl: "encoded_levels example_env example_gui Font = [0]"
    by (simp add: encoded_levels_Font example_env_def)
  have ww: "8 + 4 * unat (width (at_zoom wide_coll 0)) = 80008"
    by (simp add: wide_coll_def wide_glyph_def)
  have wb: "bytes_of_levels (at_zoom wide_coll) (encoded_levels example_env example_gui Font) = 120008"
    unfolding wl
    by (simp add: bytes_of_levels_def level_bytes_def level_rgba_bytes_def level_mv_bytes_def
        wide_coll_def wide_glyph_def)
  have wn: "\<not> layout_as_planned example_env example_gui Font wide_coll 0"
    unfolding layout_as_planned_def Let_def wide_infos
    by (simp add: wide_coll_def wide_glyph_def)
  have wide: "length (data wide_glyph) = unat (width wide_glyph) * unat (height wide_glyph) \<and>
   encoded_levels example_env example_gui Font = [0] \<and>
   8 + 4 * unat (width (at_zoom wide_coll 0)) = 80008 \<and>
   unat (sprite_line_size (infos (Encode example_env example_gui Font wide_coll) 0)) = 14472 \<and>
   unat (mv_offset (infos (Encode example_env example_gui Font wide_coll) 0)) = 14472 \<and>
   unat (payload_size (Encode example_env example_gui Font wide_coll)) = 54472 \<and>
   bytes_of_levels (at_zoom wide_coll) (encoded_levels example_env example_gui Font) = 120008 \<and>
   \<not> layout_as_planned example_env example_gui Font wide_coll 0"
    unfolding wide_infos wide_payload_size using wdt wl ww wb wn by simp
  from big wide show ?thesis by blast
qed

text \<open>
  C6, as the code has it. For a font glyph the range is the single level
  \<^verbatim>\<open>ZoomLevel::Min\<close>. Otherwise the minimum is the configured minimum, and the maximum
  is the configured maximum, or \<^verbatim>\<open>ZoomLevel::Max\<close> when the configured maximum equals
  the configured minimum. Encode packs exactly the levels of that range.
\<close>

theorem encoded_zoom_range:
  "zoom_range e gui Font = (ZoomLevel_Min e, ZoomLevel_Min e) \<and>
   zoom_range e gui NotFont =
     (zoom_min gui, if zoom_max gui = zoom_min gui then ZoomLevel_Max e else zoom_max gui) \<and>
   dom (payload (Encode e gui t sprite)) = {fst (zoom_range e gui t) .. snd (zoom_range e gui t)}"
  unfolding dom_payload_Encode encoded_levels_upt set_upt atLeastLessThanSuc_atLeastAtMost
  by (simp add: zoom_range_def)

theorem encoded_zoom_range_witness:
  "dom (payload (Encode example_env single_level_gui NotFont example_coll)) = {2 .. 5} \<and>
   dom (payload (Encode example_env single_level_gui Font example_coll)) = {0}"
  using encoded_zoom_range [of example_env single_level_gui NotFont example_coll]
    encoded_zoom_range [of example_env single_level_gui Font example_coll]
  by (simp add: single_level_gui_def example_env_def)

text \<open>
  C6, as stated, widens a configuration with equal minimum and maximum to the full
  available range. With both configured as level 2 and the available levels 0 to 5, the
  encoded range is 2 to 5: the levels 0 and 1 are not packed.
\<close>

theorem full_zoom_range_counterexample:
  "zoom_max single_level_gui = zoom_min single_level_gui \<and>
   (ZoomLevel_Min example_env, ZoomLevel_Max example_env) = (0, 5) \<and>
   zoom_range example_env single_level_gui NotFont = (2, 5) \<and>
   zoom_range example_env single_level_gui NotFont \<noteq> (ZoomLevel_Min example_env, ZoomLevel_Max example_env) \<and>
   payload (Encode example_env single_level_gui NotFont example_coll) 0 = None \<and>
   payload (Encode example_env single_level_gui NotFont example_coll) 1 = None"
proof -
  have r: "zoom_range example_env single_level_gui NotFont = (2, 5)"
    by (simp add: zoom_range_def single_level_gui_def example_env_def)
  have l: "set (encoded_levels example_env single_level_gui NotFont) = {2..5}"
    unfolding encoded_levels_upt r set_upt fst_conv snd_conv atLeastLessThanSuc_atLeastAtMost ..
  have n: "payload (Encode example_env single_level_gui NotFont example_coll) 0 = None"
    "payload (Encode example_env single_level_gui NotFont example_coll) 1 = None"
    by (rule payload_Encode_notin, simp add: l)+
  show ?thesis
    unfolding r n by (simp add: single_level_gui_def example_env_def)
qed




text \<open>
  C8. A font glyph of one line with two pixels, the first with alpha 0 and the second
  \<open>r = 10, g = 20, b = 30, a = 255\<close> with recolour index 0: Encode packs one line with
  left count 1 and right count 0, the second colour cell is \<open>10, 20, 30, 255\<close>, the
  first map-value cell is zero and the second is index 0 with \<^verbatim>\<open>DEFAULT_BRIGHTNESS\<close>;
  \<^verbatim>\<open>Translucent\<close> is clear, \<^verbatim>\<open>NoRemap\<close> and \<^verbatim>\<open>NoAnim\<close> are set.
\<close>

theorem scenario_two_pixels:
  "payload (Encode e gui Font \<lparr>at_zoom = other(ZoomLevel_Min e := scenario_sprite r0 g0 b0 m0), Root = root\<rparr>)
       (ZoomLevel_Min e) =
     Some \<lparr>lines = [\<lparr>nb_left = Some 1, nb_right = Some 0,
                     cells = [\<lparr>col_r = 0, col_g = 0, col_b = 0, col_a = 0\<rparr>,
                              \<lparr>col_r = 10, col_g = 20, col_b = 30, col_a = 255\<rparr>]\<rparr>],
           mvs = [\<lparr>mv_m = 0, mv_v = 0\<rparr>, \<lparr>mv_m = 0, mv_v = DEFAULT_BRIGHTNESS e\<rparr>]\<rparr> \<and>
   flags (Encode e gui Font \<lparr>at_zoom = other(ZoomLevel_Min e := scenario_sprite r0 g0 b0 m0), Root = root\<rparr>) =
     {NoRemap, NoAnim} \<and>
   Translucent \<notin>
     flags (Encode e gui Font \<lparr>at_zoom = other(ZoomLevel_Min e := scenario_sprite r0 g0 b0 m0), Root = root\<rparr>)"
  by (simp add: Encode_def Let_def zoom_range_def zoom_levels_def insert_commute
      encode_level_def encode_line_def encode_pixel_def scenario_sprite_def
      store_flags_def acc_init_def Colour_zero_def MapValue_zero_def
      sizeof_Colour_def sizeof_uint32_t_def sizeof_MapValue_def META_LENGTH_def
      count_left_numeral count_right_numeral cell_at_def)

text \<open>
  C9. The three flags are computed from the pixels with nonzero alpha only: two inputs
  whose packed pixels agree in alpha, and in every field where the alpha is not 0, get
  the same flags; and when every pixel that carries a nonzero recolour index is fully
  transparent, \<^verbatim>\<open>NoRemap\<close> and \<^verbatim>\<open>NoAnim\<close> are both set.
\<close>

theorem flags_ignore_transparent_pixels:
  assumes "\<forall>z \<in> set (encoded_levels e gui t).
             list_all2 same_visible (level_pixels (at_zoom sprite z)) (level_pixels (at_zoom sprite' z))"
  shows "flags (Encode e gui t sprite) = flags (Encode e gui t sprite') \<and>
         ((\<forall>p \<in> set (packed_pixels e gui t sprite). px_m p \<noteq> 0 \<longrightarrow> px_a p = 0) \<longrightarrow>
            NoRemap \<in> flags (Encode e gui t sprite) \<and> NoAnim \<in> flags (Encode e gui t sprite))"
proof
  show "flags (Encode e gui t sprite) = flags (Encode e gui t sprite')"
    using acc_join_levels_same_visible [OF assms, of e acc_init]
    by (simp add: flags_Encode packed_pixels_def)
  show "(\<forall>p \<in> set (packed_pixels e gui t sprite). px_m p \<noteq> 0 \<longrightarrow> px_a p = 0) \<longrightarrow>
          NoRemap \<in> flags (Encode e gui t sprite) \<and> NoAnim \<in> flags (Encode e gui t sprite)"
    by (auto simp add: flags_Encode store_flags_def acc_join_def acc_init_def px_remap_def px_anim_def)
qed

theorem flags_ignore_transparent_pixels_witness:
  "flags (Encode example_env example_gui Font example_coll) =
     flags (Encode example_env example_gui Font example_coll_cleared) \<and>
   NoRemap \<in> flags (Encode example_env example_gui Font hidden_index_coll) \<and>
   NoAnim \<in> flags (Encode example_env example_gui Font hidden_index_coll)"
proof -
  have a: "\<forall>z \<in> set (encoded_levels example_env example_gui Font).
             list_all2 same_visible (level_pixels (at_zoom example_coll z))
               (level_pixels (at_zoom example_coll_cleared z))"
    by (simp add: encoded_levels_Font level_pixels_def same_visible_def
        example_coll_def example_sprite_def example_coll_cleared_def example_sprite_cleared_def)
  have b: "\<forall>z \<in> set (encoded_levels example_env example_gui Font).
             list_all2 same_visible (level_pixels (at_zoom hidden_index_coll z))
               (level_pixels (at_zoom hidden_index_coll z))"
    by (simp add: encoded_levels_Font level_pixels_def same_visible_def
        hidden_index_coll_def hidden_index_sprite_def)
  show ?thesis
    using flags_ignore_transparent_pixels [OF a] flags_ignore_transparent_pixels [OF b]
    unfolding hidden_index_pixels by simp
qed



end
